theory Spec2Isabelle
  imports Complex_Main "HOL-Library.Sublist"
begin

section \<open>PocketFence filter performance harness: data model\<close>

text \<open>
  Shallow embedding of \<^verbatim>\<open>src/Filter/test-performance-python.py\<close>.
  Python exceptions are values of \<open>error\<close>; a function that can raise returns
  \<open>error + 'a\<close> with \<open>Inl\<close> the exception. Metric values (Python floats and ints,
  compared exactly by Python) are reals.
\<close>

datatype error =
    ImportError | FileNotFoundError | RuntimeError | OSError | AccessDenied | AttributeError
  | ZeroDivisionError | ValueError | KeyError

type_synonym results = "string \<rightharpoonup> real"

text \<open>The outcome of \<^verbatim>\<open>requests.get\<close>: a response with its body text, or a raised
  \<^verbatim>\<open>requests.RequestException\<close> (connection error, timeout).\<close>

datatype http_result = Response string | RequestException

text \<open>The outcome of \<^verbatim>\<open>psutil.Process(pid).memory_info().rss\<close>.\<close>

datatype mem_result = Rss nat | NoSuchProcess | MemAccessDenied

text \<open>Process events, recorded in the order the harness causes them.\<close>

datatype event = Started nat | Terminated nat | Killed nat

text \<open>
  The world outside the harness. Every interaction with it (a clock read, an HTTP
  request, a process launch, a wait, a memory sample, a file-system lookup) takes the
  answer the world gives at the current interaction index \<open>step\<close> and advances the index,
  so a world fixes one run and every sequential run is the run of some world.
  \<^verbatim>\<open>time.sleep\<close> has no effect but on later clock readings, which the world supplies.
\<close>

record world =
  installed :: "string \<Rightarrow> bool"
  find_exe :: "nat \<Rightarrow> string option"
  clock :: "nat \<Rightarrow> real"
  popen :: "nat \<Rightarrow> nat option"
  http_get :: "nat \<Rightarrow> string \<Rightarrow> http_result"
  wait_expired :: "nat \<Rightarrow> bool"
  memory_info :: "nat \<Rightarrow> nat \<Rightarrow> mem_result"
  file_write_ok :: "nat \<Rightarrow> bool"

text \<open>Module-level state: the import cache and the flag \<^verbatim>\<open>HAS_PSUTIL\<close>.\<close>

record globals =
  sys_modules :: "string list"
  HAS_PSUTIL :: bool

text \<open>
  The object \<^verbatim>\<open>FilterPerformanceTest\<close>. \<open>step\<close> and \<open>events\<close> are not fields of the
  class: they record how far the run is in the world and what it did to processes.
  Log entries keep the message text without timestamp, emoji and formatted numbers.
\<close>

record tester =
  test_duration :: int
  concurrent_connections :: int
  test_results :: results
  test_log :: "string list"
  filter_process :: "nat option"
  step :: nat
  events :: "event list"

definition test_urls :: "string list" where
  "test_urls =
    [''http://example.com'', ''http://educational.site.com'',
     ''http://badsite-violence.com'', ''http://adult-content.com'',
     ''http://malware.site.com'', ''http://safe-learning.edu'',
     ''http://gambling-casino.com'', ''http://social-media.com'']"

type_synonym test_case = "string \<times> bool \<times> string"

definition test_cases :: "test_case list" where
  "test_cases =
    [(''http://education.com'', False, ''Educational site''),
     (''http://violence-fighting.com'', True, ''Violence content''),
     (''http://adult-explicit.com'', True, ''Adult content''),
     (''http://malware-virus.com'', True, ''Malware site''),
     (''http://school-learning.edu'', False, ''School site''),
     (''http://gambling-casino.com'', True, ''Gambling site''),
     (''http://safe-tutorial.com'', False, ''Tutorial site''),
     (''http://cyberbullying-hate.com'', True, ''Cyberbullying content'')]"

definition init_tester :: "int \<Rightarrow> int \<Rightarrow> tester" where
  "init_tester duration connections =
    \<lparr>test_duration = duration, concurrent_connections = connections,
     test_results = Map.empty, test_log = [], filter_process = None,
     step = 0, events = []\<rparr>"

definition tick :: "tester \<Rightarrow> tester" where
  "tick s = s\<lparr>step := Suc (step s)\<rparr>"

definition log_test :: "string \<Rightarrow> tester \<Rightarrow> tester" where
  "log_test message s = s\<lparr>test_log := test_log s @ [message]\<rparr>"

definition set_result :: "string \<Rightarrow> real \<Rightarrow> tester \<Rightarrow> tester" where
  "set_result k v s = s\<lparr>test_results := (test_results s)(k \<mapsto> v)\<rparr>"

section \<open>Score and grade\<close>

text \<open>\<^verbatim>\<open>k in d\<close> and \<^verbatim>\<open>d[k]\<close>; the latter raises \<^verbatim>\<open>KeyError\<close> on a missing key.\<close>

definition contains_key :: "results \<Rightarrow> string \<Rightarrow> bool" where
  "contains_key m k = (m k \<noteq> None)"

definition getitem :: "results \<Rightarrow> string \<Rightarrow> error + real" where
  "getitem m k = (case m k of None \<Rightarrow> Inl KeyError | Some v \<Rightarrow> Inr v)"

text \<open>\<^verbatim>\<open>k in d and d[k] < t\<close> and \<^verbatim>\<open>k in d and d[k] > t\<close>, with Python's short-circuit.\<close>

definition in_and_lt :: "results \<Rightarrow> string \<Rightarrow> real \<Rightarrow> error + bool" where
  "in_and_lt m k t =
    (if contains_key m k
     then (case getitem m k of Inl e \<Rightarrow> Inl e | Inr v \<Rightarrow> Inr (v < t))
     else Inr False)"

definition in_and_gt :: "results \<Rightarrow> string \<Rightarrow> real \<Rightarrow> error + bool" where
  "in_and_gt m k t =
    (if contains_key m k
     then (case getitem m k of Inl e \<Rightarrow> Inl e | Inr v \<Rightarrow> Inr (v > t))
     else Inr False)"

definition grade_of :: "nat \<Rightarrow> string" where
  "grade_of score =
    (if score \<ge> 90 then ''A+''
     else if score \<ge> 80 then ''A''
     else if score \<ge> 70 then ''B''
     else if score \<ge> 60 then ''C''
     else if score \<ge> 50 then ''D''
     else ''F'')"

definition calculate_performance_grade :: "tester \<Rightarrow> error + (nat \<times> string)" where
  "calculate_performance_grade s =
    (let m = test_results s; score0 = (0::nat) in
     (case in_and_lt m ''avg_startup_time'' 2000 of Inl e \<Rightarrow> Inl e | Inr c1 \<Rightarrow>
     (let score1 = (if c1 then score0 + 15 else score0) in
     (case in_and_lt m ''avg_memory_mb'' 50 of Inl e \<Rightarrow> Inl e | Inr c2 \<Rightarrow>
     (let score2 = (if c2 then score1 + 20 else score1) in
     (case in_and_gt m ''requests_per_second'' 10 of Inl e \<Rightarrow> Inl e | Inr c3 \<Rightarrow>
     (let score3 = (if c3 then score2 + 20 else score2) in
     (case in_and_gt m ''filter_accuracy'' 80 of Inl e \<Rightarrow> Inl e | Inr c4 \<Rightarrow>
     (let score4 = (if c4 then score3 + 25 else score3) in
     (case in_and_gt m ''concurrent_success_rate'' 90 of Inl e \<Rightarrow> Inl e | Inr c5 \<Rightarrow>
     (let score5 = (if c5 then score4 + 20 else score4) in
      Inr (score5, grade_of score5))))))))))))"

text \<open>The score table as the specification words it: one contribution per metric.\<close>

definition below_pts :: "results \<Rightarrow> string \<Rightarrow> real \<Rightarrow> nat \<Rightarrow> nat" where
  "below_pts m k t p = (case m k of None \<Rightarrow> 0 | Some v \<Rightarrow> if v < t then p else 0)"

definition above_pts :: "results \<Rightarrow> string \<Rightarrow> real \<Rightarrow> nat \<Rightarrow> nat" where
  "above_pts m k t p = (case m k of None \<Rightarrow> 0 | Some v \<Rightarrow> if v > t then p else 0)"

definition startup_pts :: "results \<Rightarrow> nat" where
  "startup_pts m = below_pts m ''avg_startup_time'' 2000 15"

definition memory_pts :: "results \<Rightarrow> nat" where
  "memory_pts m = below_pts m ''avg_memory_mb'' 50 20"

definition throughput_pts :: "results \<Rightarrow> nat" where
  "throughput_pts m = above_pts m ''requests_per_second'' 10 20"

definition accuracy_pts :: "results \<Rightarrow> nat" where
  "accuracy_pts m = above_pts m ''filter_accuracy'' 80 25"

definition concurrency_pts :: "results \<Rightarrow> nat" where
  "concurrency_pts m = above_pts m ''concurrent_success_rate'' 90 20"

definition spec_score :: "results \<Rightarrow> nat" where
  "spec_score m =
    startup_pts m + memory_pts m + throughput_pts m + accuracy_pts m + concurrency_pts m"

definition spec_grade :: "nat \<Rightarrow> string" where
  "spec_grade score =
    (if score \<ge> 90 then ''A+'' else if score \<ge> 80 then ''A'' else if score \<ge> 70 then ''B''
     else if score \<ge> 60 then ''C'' else if score \<ge> 50 then ''D'' else ''F'')"

text \<open>Whether a value of the metric \<open>k\<close> passes the threshold of the score table.\<close>

definition passes :: "string \<Rightarrow> real \<Rightarrow> bool" where
  "passes k v =
    (if k = ''avg_startup_time'' then v < 2000
     else if k = ''avg_memory_mb'' then v < 50
     else if k = ''requests_per_second'' then v > 10
     else if k = ''filter_accuracy'' then v > 80
     else if k = ''concurrent_success_rate'' then v > 90
     else False)"


section \<open>Process supervision\<close>

definition ready_url :: string where
  "ready_url = ''http://127.0.0.1:8888''"

definition find_filter_executable :: "world \<Rightarrow> tester \<Rightarrow> string option \<times> tester" where
  "find_filter_executable w s = (find_exe w (step s), tick s)"

text \<open>
  \<^verbatim>\<open>terminate(); wait(timeout=5)\<close>, and \<^verbatim>\<open>kill(); wait()\<close> when the wait raises
  \<^verbatim>\<open>TimeoutExpired\<close>: the sequence of \<^verbatim>\<open>stop_filter\<close> and of the clean shutdown
  of a startup cycle.
\<close>

definition terminate_wait_kill :: "world \<Rightarrow> nat \<Rightarrow> tester \<Rightarrow> tester" where
  "terminate_wait_kill w pid s =
    (let s1 = (tick s)\<lparr>events := events s @ [Terminated pid]\<rparr>
     in if wait_expired w (step s) then s1\<lparr>events := events s1 @ [Killed pid]\<rparr> else s1)"

definition stop_filter :: "world \<Rightarrow> tester \<Rightarrow> tester" where
  "stop_filter w s =
    (case filter_process s of
       None \<Rightarrow> s
     | Some pid \<Rightarrow> (terminate_wait_kill w pid s)\<lparr>filter_process := None\<rparr>)"

text \<open>
  The readiness loop of \<^verbatim>\<open>start_filter\<close> (\<^verbatim>\<open>while ... else\<close>): \<open>True\<close> when a
  request was answered (\<^verbatim>\<open>break\<close>), \<open>False\<close> when the wait budget of 10 seconds ran
  out. The bare \<^verbatim>\<open>except\<close> catches every failure of the request. The loop ends only
  when the clock says so, hence the option.
\<close>

partial_function (option) wait_listening :: "world \<Rightarrow> real \<Rightarrow> nat \<Rightarrow> (bool \<times> nat) option" where
  "wait_listening w start_time n =
    (if clock w n - start_time < 10
     then (case http_get w (Suc n) ready_url of
             Response body \<Rightarrow> Some (True, n + 2)
           | RequestException \<Rightarrow> wait_listening w start_time (n + 2))
     else Some (False, Suc n))"

declare wait_listening.simps [code]

definition start_filter :: "world \<Rightarrow> tester \<Rightarrow> ((error + unit) \<times> tester) option" where
  "start_filter w s =
    (case find_filter_executable w s of
       (None, s1) \<Rightarrow> Some (Inl FileNotFoundError, s1)
     | (Some executable, s1) \<Rightarrow>
        (case popen w (step s1) of
           None \<Rightarrow> Some (Inl OSError, tick s1)
         | Some pid \<Rightarrow>
            let s2 = (tick s1)\<lparr>filter_process := Some pid,
                                events := events s1 @ [Started pid]\<rparr>;
                start_time = clock w (step s2);
                s3 = tick s2
            in (case wait_listening w start_time (step s3) of
                  None \<Rightarrow> None
                | Some (listening, n) \<Rightarrow>
                   if listening then Some (Inr (), s3\<lparr>step := n\<rparr>)
                   else Some (Inl RuntimeError, s3\<lparr>step := n\<rparr>))))"

text \<open>\<^verbatim>\<open>try: body finally: self.stop_filter()\<close>.\<close>

definition finally_stop ::
  "world \<Rightarrow> ((error + unit) \<times> tester) option \<Rightarrow> ((error + unit) \<times> tester) option" where
  "finally_stop w r = (case r of None \<Rightarrow> None | Some (x, s) \<Rightarrow> Some (x, stop_filter w s))"

section \<open>Statistics\<close>

definition mean :: "real list \<Rightarrow> real" where
  "mean xs = sum_list xs / real (length xs)"

fun max_list :: "real list \<Rightarrow> real" where
  "max_list (x # xs) = (case xs of [] \<Rightarrow> x | _ \<Rightarrow> max x (max_list xs))"

text \<open>Python's \<^verbatim>\<open>a / b\<close>.\<close>

definition py_div :: "real \<Rightarrow> real \<Rightarrow> error + real" where
  "py_div a b = (if b = 0 then Inl ZeroDivisionError else Inr (a / b))"

text \<open>The three summary entries \<^verbatim>\<open>avg_X\<close>, \<^verbatim>\<open>min_X\<close>, \<^verbatim>\<open>max_X\<close> of a non-empty list.\<close>

definition record_stats :: "string \<Rightarrow> real list \<Rightarrow> tester \<Rightarrow> tester" where
  "record_stats name xs s =
    set_result (''max_'' @ name) (max_list xs)
      (set_result (''min_'' @ name) (min_list xs)
        (set_result (''avg_'' @ name) (mean xs) s))"

section \<open>Startup phase\<close>

definition startup_banner :: string where
  "startup_banner = ''Testing Filter Startup Performance...''"

text \<open>The readiness loop of one startup cycle: the time of the first answer, or \<open>None\<close>.\<close>

partial_function (option) poll_ready :: "world \<Rightarrow> real \<Rightarrow> nat \<Rightarrow> (real option \<times> nat) option" where
  "poll_ready w timeout n =
    (if clock w n < timeout
     then (case http_get w (Suc n) ready_url of
             Response body \<Rightarrow> Some (Some (clock w (n + 2)), n + 3)
           | RequestException \<Rightarrow> poll_ready w timeout (n + 2))
     else Some (None, Suc n))"

declare poll_ready.simps [code]

text \<open>
  One startup cycle when no interrupt arrives and the console accepts every entry;
  \<open>startup_cycle_faulty\<close> below is the cycle with these faults, and agrees with this one
  when there is none. \<^verbatim>\<open>if ready_time:\<close> is false for \<^verbatim>\<open>None\<close> and for the float 0.
\<close>

definition startup_cycle ::
  "world \<Rightarrow> string \<Rightarrow> real list \<Rightarrow> tester \<Rightarrow> ((error + real list) \<times> tester) option" where
  "startup_cycle w executable startup_times s =
    (let s1 = log_test ''Startup test'' s;
         start_time = clock w (step s1);
         s2 = tick s1
     in case popen w (step s2) of
          None \<Rightarrow> Some (Inl OSError, tick s2)
        | Some pid \<Rightarrow>
           let s3 = (tick s2)\<lparr>events := events s2 @ [Started pid]\<rparr>;
               timeout = clock w (step s3) + 10;
               s4 = tick s3
           in (case poll_ready w timeout (step s4) of
                 None \<Rightarrow> None
               | Some (ready_time, n) \<Rightarrow>
                  let s5 = s4\<lparr>step := n\<rparr> in
                  (case ready_time of
                     None \<Rightarrow>
                       Some (Inr startup_times,
                             terminate_wait_kill w pid (log_test ''Startup timeout!'' s5))
                   | Some t \<Rightarrow>
                       if t \<noteq> 0
                       then Some (Inr (startup_times @ [(t - start_time) * 1000]),
                                  terminate_wait_kill w pid (log_test ''Startup time'' s5))
                       else Some (Inr startup_times,
                                  terminate_wait_kill w pid (log_test ''Startup timeout!'' s5)))))"

fun startup_loop ::
  "world \<Rightarrow> string \<Rightarrow> nat list \<Rightarrow> real list \<Rightarrow> tester \<Rightarrow> ((error + real list) \<times> tester) option" where
  "startup_loop w executable [] startup_times s = Some (Inr startup_times, s)"
| "startup_loop w executable (i # rest) startup_times s =
    (case startup_cycle w executable startup_times s of
       None \<Rightarrow> None
     | Some (Inl e, s') \<Rightarrow> Some (Inl e, s')
     | Some (Inr startup_times', s') \<Rightarrow> startup_loop w executable rest startup_times' s')"

definition measure_startup_performance ::
  "world \<Rightarrow> tester \<Rightarrow> ((error + unit) \<times> tester) option" where
  "measure_startup_performance w s =
    (case find_filter_executable w (log_test startup_banner s) of
       (None, s1) \<Rightarrow> Some (Inr (), log_test ''Filter executable not found'' s1)
     | (Some executable, s1) \<Rightarrow>
        (case startup_loop w executable [1, 2, 3, 4, 5] [] s1 of
           None \<Rightarrow> None
         | Some (Inl e, s2) \<Rightarrow> Some (Inl e, s2)
         | Some (Inr startup_times, s2) \<Rightarrow>
            Some (Inr (),
              if startup_times \<noteq> []
              then log_test ''Min, Max startup time''
                     (log_test ''Average startup time''
                       (record_stats ''startup_time'' startup_times s2))
              else s2)))"

section \<open>Startup phase under interrupts and console failures\<close>

text \<open>
  What can leave the startup phase besides the exceptions above: a \<^verbatim>\<open>KeyboardInterrupt\<close>,
  which is no \<^verbatim>\<open>Exception\<close> and which no handler of the harness catches.
\<close>

datatype raised = Exception error | KeyboardInterrupt

text \<open>
  Faults from outside the harness: a Ctrl-C that arrives during the \<^verbatim>\<open>time.sleep\<close>
  entered at interaction \<open>n\<close>, and a console that is closed at interaction \<open>n\<close>, so that
  the \<^verbatim>\<open>print\<close> of \<^verbatim>\<open>log_test\<close> raises \<^verbatim>\<open>OSError\<close> before the entry is appended.
\<close>

record faults =
  interrupt :: "nat \<Rightarrow> bool"
  print_fails :: "nat \<Rightarrow> bool"

definition log_test_faulty :: "faults \<Rightarrow> string \<Rightarrow> tester \<Rightarrow> (raised + unit) \<times> tester" where
  "log_test_faulty f message s =
    (if print_fails f (step s) then (Inl (Exception OSError), s)
     else (Inr (), log_test message s))"

text \<open>The readiness loop of a startup cycle: the \<^verbatim>\<open>time.sleep(0.1)\<close> of the bare
  \<^verbatim>\<open>except\<close> handler is where an interrupt can arrive.\<close>

partial_function (option) poll_ready_faulty ::
  "faults \<Rightarrow> world \<Rightarrow> real \<Rightarrow> nat \<Rightarrow> ((raised + real option) \<times> nat) option" where
  "poll_ready_faulty f w timeout n =
    (if clock w n < timeout
     then (case http_get w (Suc n) ready_url of
             Response body \<Rightarrow> Some (Inr (Some (clock w (n + 2))), n + 3)
           | RequestException \<Rightarrow>
               if interrupt f (n + 2) then Some (Inl KeyboardInterrupt, n + 2)
               else poll_ready_faulty f w timeout (n + 2))
     else Some (Inr None, Suc n))"

declare poll_ready_faulty.simps [code]

text \<open>The clean shutdown of a cycle and the \<^verbatim>\<open>time.sleep(1)\<close> after it.\<close>

definition clean_shutdown_faulty ::
  "faults \<Rightarrow> world \<Rightarrow> nat \<Rightarrow> real list \<Rightarrow> tester \<Rightarrow> (raised + real list) \<times> tester" where
  "clean_shutdown_faulty f w pid startup_times s =
    (let s' = terminate_wait_kill w pid s
     in if interrupt f (step s') then (Inl KeyboardInterrupt, s') else (Inr startup_times, s'))"

text \<open>
  One startup cycle with the faults. Between the launch and the clean shutdown the
  source has no \<^verbatim>\<open>try\<close>: an interrupt in the readiness loop, or a failing \<^verbatim>\<open>print\<close>
  of the log entry that follows it, leaves the cycle at once, and the shutdown is not
  reached.
\<close>

definition startup_cycle_faulty ::
  "faults \<Rightarrow> world \<Rightarrow> string \<Rightarrow> real list \<Rightarrow> tester
     \<Rightarrow> ((raised + real list) \<times> tester) option" where
  "startup_cycle_faulty f w executable startup_times s =
    (case log_test_faulty f ''Startup test'' s of
       (Inl x, s1) \<Rightarrow> Some (Inl x, s1)
     | (Inr u, s1) \<Rightarrow>
        let start_time = clock w (step s1);
            s2 = tick s1
        in (case popen w (step s2) of
              None \<Rightarrow> Some (Inl (Exception OSError), tick s2)
            | Some pid \<Rightarrow>
               let s3 = (tick s2)\<lparr>events := events s2 @ [Started pid]\<rparr>;
                   timeout = clock w (step s3) + 10;
                   s4 = tick s3
               in (case poll_ready_faulty f w timeout (step s4) of
                     None \<Rightarrow> None
                   | Some (Inl x, n) \<Rightarrow> Some (Inl x, s4\<lparr>step := n\<rparr>)
                   | Some (Inr ready_time, n) \<Rightarrow>
                      let s5 = s4\<lparr>step := n\<rparr>;
                          timed_out =
                            (case log_test_faulty f ''Startup timeout!'' s5 of
                               (Inl x, s6) \<Rightarrow> Some (Inl x, s6)
                             | (Inr u, s6) \<Rightarrow>
                                 Some (clean_shutdown_faulty f w pid startup_times s6))
                      in (case ready_time of
                            None \<Rightarrow> timed_out
                          | Some t \<Rightarrow>
                             if t \<noteq> 0
                             then (case log_test_faulty f ''Startup time'' s5 of
                                     (Inl x, s6) \<Rightarrow> Some (Inl x, s6)
                                   | (Inr u, s6) \<Rightarrow>
                                       Some (clean_shutdown_faulty f w pid
                                         (startup_times @ [(t - start_time) * 1000]) s6))
                             else timed_out))))"

fun startup_loop_faulty ::
  "faults \<Rightarrow> world \<Rightarrow> string \<Rightarrow> nat list \<Rightarrow> real list \<Rightarrow> tester
     \<Rightarrow> ((raised + real list) \<times> tester) option" where
  "startup_loop_faulty f w executable [] startup_times s = Some (Inr startup_times, s)"
| "startup_loop_faulty f w executable (i # rest) startup_times s =
    (case startup_cycle_faulty f w executable startup_times s of
       None \<Rightarrow> None
     | Some (Inl x, s') \<Rightarrow> Some (Inl x, s')
     | Some (Inr startup_times', s') \<Rightarrow>
         startup_loop_faulty f w executable rest startup_times' s')"

definition measure_startup_performance_faulty ::
  "faults \<Rightarrow> world \<Rightarrow> tester \<Rightarrow> ((raised + unit) \<times> tester) option" where
  "measure_startup_performance_faulty f w s =
    (case log_test_faulty f startup_banner s of
       (Inl x, s0) \<Rightarrow> Some (Inl x, s0)
     | (Inr u, s0) \<Rightarrow>
        (case find_filter_executable w s0 of
           (None, s1) \<Rightarrow> Some (log_test_faulty f ''Filter executable not found'' s1)
         | (Some executable, s1) \<Rightarrow>
            (case startup_loop_faulty f w executable [1, 2, 3, 4, 5] [] s1 of
               None \<Rightarrow> None
             | Some (Inl x, s2) \<Rightarrow> Some (Inl x, s2)
             | Some (Inr startup_times, s2) \<Rightarrow>
                if startup_times \<noteq> []
                then (case log_test_faulty f ''Average startup time''
                             (record_stats ''startup_time'' startup_times s2) of
                        (Inl x, s3) \<Rightarrow> Some (Inl x, s3)
                      | (Inr u, s3) \<Rightarrow> Some (log_test_faulty f ''Min, Max startup time'' s3))
                else Some (Inr (), s2))))"

definition no_faults :: faults where
  "no_faults = \<lparr>interrupt = (\<lambda>n. False), print_fails = (\<lambda>n. False)\<rparr>"

text \<open>An exception of the harness as something raised.\<close>

definition raise_of :: "error + 'a \<Rightarrow> raised + 'a" where
  "raise_of r = (case r of Inl e \<Rightarrow> Inl (Exception e) | Inr x \<Rightarrow> Inr x)"

section \<open>Memory phase\<close>

definition memory_banner :: string where
  "memory_banner = ''Testing Memory Usage...''"

text \<open>
  The ten readings. \<^verbatim>\<open>NoSuchProcess\<close> is caught (log, \<^verbatim>\<open>break\<close>); any other psutil
  error leaves the loop as an exception. Without psutil the body only logs.
\<close>

fun memory_loop ::
  "world \<Rightarrow> globals \<Rightarrow> nat list \<Rightarrow> real list \<Rightarrow> tester \<Rightarrow> (error + real list) \<times> tester" where
  "memory_loop w g [] memory_readings s = (Inr memory_readings, s)"
| "memory_loop w g (i # rest) memory_readings s =
    (if HAS_PSUTIL g
     then (case filter_process s of
             None \<Rightarrow> (Inl AttributeError, s)
           | Some pid \<Rightarrow>
              (case memory_info w (step s) pid of
                 Rss bytes \<Rightarrow>
                   memory_loop w g rest (memory_readings @ [real bytes / 1024 / 1024])
                     (log_test ''Memory reading'' (tick s))
               | NoSuchProcess \<Rightarrow>
                   (Inr memory_readings, log_test ''Process ended unexpectedly'' (tick s))
               | MemAccessDenied \<Rightarrow> (Inl AccessDenied, tick s)))
     else memory_loop w g rest memory_readings
            (log_test ''Memory reading: psutil not available'' s))"

definition measure_memory_usage ::
  "world \<Rightarrow> globals \<Rightarrow> tester \<Rightarrow> ((error + unit) \<times> tester) option" where
  "measure_memory_usage w g s =
    finally_stop w
      (case start_filter w (log_test memory_banner s) of
         None \<Rightarrow> None
       | Some (Inl e, s1) \<Rightarrow> Some (Inl e, s1)
       | Some (Inr u, s1) \<Rightarrow>
          (case memory_loop w g [1, 2, 3, 4, 5, 6, 7, 8, 9, 10] [] s1 of
             (Inl e, s2) \<Rightarrow> Some (Inl e, s2)
           | (Inr memory_readings, s2) \<Rightarrow>
              Some (Inr (),
                if memory_readings \<noteq> []
                then log_test ''Min, Max memory''
                       (log_test ''Average memory''
                         (record_stats ''memory_mb'' memory_readings s2))
                else s2)))"

section \<open>Throughput phase\<close>

definition throughput_banner :: string where
  "throughput_banner = ''Testing Filtering Performance...''"

text \<open>\<^verbatim>\<open>"PocketFence" in response.text and "Content Blocked" in response.text\<close>.\<close>

definition is_blocked :: "string \<Rightarrow> bool" where
  "is_blocked text = (sublist ''PocketFence'' text \<and> sublist ''Content Blocked'' text)"

record counters =
  request_count :: nat
  blocked_count :: nat
  response_times :: "real list"

text \<open>One request of the throughput loop (the body of the inner \<^verbatim>\<open>try\<close>).\<close>

definition throughput_probe :: "world \<Rightarrow> string \<Rightarrow> counters \<Rightarrow> nat \<Rightarrow> counters \<times> nat" where
  "throughput_probe w url c n =
    (let request_start = clock w n in
     case http_get w (Suc n) url of
       Response text \<Rightarrow>
         let request_time = (clock w (n + 2) - request_start) * 1000;
             c1 = c\<lparr>response_times := response_times c @ [request_time]\<rparr>;
             c2 = c1\<lparr>request_count := Suc (request_count c1)\<rparr>
         in (if is_blocked text then c2\<lparr>blocked_count := Suc (blocked_count c2)\<rparr> else c2,
             n + 3)
     | RequestException \<Rightarrow> (c\<lparr>request_count := Suc (request_count c)\<rparr>, n + 2))"

text \<open>\<^verbatim>\<open>for url in self.test_urls\<close>, left by \<^verbatim>\<open>break\<close> once the clock reaches the end.\<close>

fun throughput_for :: "world \<Rightarrow> real \<Rightarrow> string list \<Rightarrow> counters \<Rightarrow> nat \<Rightarrow> counters \<times> nat" where
  "throughput_for w end_time [] c n = (c, n)"
| "throughput_for w end_time (url # urls) c n =
    (case throughput_probe w url c n of
       (c', n') \<Rightarrow>
         if clock w n' \<ge> end_time then (c', Suc n')
         else throughput_for w end_time urls c' (Suc n'))"

partial_function (option) throughput_while ::
  "world \<Rightarrow> real \<Rightarrow> counters \<Rightarrow> nat \<Rightarrow> (counters \<times> nat) option" where
  "throughput_while w end_time c n =
    (if clock w n < end_time
     then (case throughput_for w end_time test_urls c (Suc n) of
             (c', n') \<Rightarrow> throughput_while w end_time c' n')
     else Some (c, Suc n))"

declare throughput_while.simps [code]

text \<open>\<^verbatim>\<open>(blocked_count / request_count) * 100 if request_count > 0 else 0\<close>.\<close>

definition block_rate_of :: "nat \<Rightarrow> nat \<Rightarrow> error + real" where
  "block_rate_of blocked requests =
    (if requests > 0
     then (case py_div (real blocked) (real requests) of
             Inl e \<Rightarrow> Inl e | Inr q \<Rightarrow> Inr (q * 100))
     else Inr 0)"

definition filtering_body :: "world \<Rightarrow> tester \<Rightarrow> ((error + unit) \<times> tester) option" where
  "filtering_body w s1 =
    (let start_time = clock w (step s1);
         s2 = log_test ''Sending test requests'' (tick s1);
         end_time = clock w (step s2) + real_of_int (test_duration s2);
         s3 = tick s2
     in case throughput_while w end_time
               \<lparr>request_count = 0, blocked_count = 0, response_times = []\<rparr> (step s3) of
          None \<Rightarrow> None
        | Some (c, n) \<Rightarrow>
           let actual_duration = clock w n - start_time;
               s4 = s3\<lparr>step := Suc n\<rparr>
           in (case py_div (real (request_count c)) actual_duration of
                 Inl e \<Rightarrow> Some (Inl e, s4)
               | Inr rps \<Rightarrow>
                  let s5 = set_result ''blocked_requests'' (real (blocked_count c))
                             (set_result ''total_requests'' (real (request_count c))
                               (set_result ''requests_per_second'' rps s4))
                  in (case block_rate_of (blocked_count c) (request_count c) of
                        Inl e \<Rightarrow> Some (Inl e, s5)
                      | Inr rate \<Rightarrow>
                         let s6 = set_result ''block_rate'' rate s5;
                             s7 = (if response_times c \<noteq> []
                                   then record_stats ''response_time'' (response_times c) s6
                                   else s6);
                             s8 = log_test ''Blocked''
                                    (log_test ''Total requests''
                                      (log_test ''Requests/sec''
                                        (log_test ''Performance results:'' s7)))
                         in Some (Inr (),
                              if response_times c \<noteq> [] then log_test ''Avg response'' s8
                              else s8))))"

definition measure_filtering_performance ::
  "world \<Rightarrow> tester \<Rightarrow> ((error + unit) \<times> tester) option" where
  "measure_filtering_performance w s =
    finally_stop w
      (case start_filter w (log_test throughput_banner s) of
         None \<Rightarrow> None
       | Some (Inl e, s1) \<Rightarrow> Some (Inl e, s1)
       | Some (Inr u, s1) \<Rightarrow> filtering_body w s1)"

section \<open>Accuracy phase\<close>

definition accuracy_banner :: string where
  "accuracy_banner = ''Testing Blocking Accuracy...''"

record buckets =
  correct_blocks :: nat
  correct_allows :: nat
  false_positives :: nat
  false_negatives :: nat

text \<open>One fixture of the accuracy loop: the probe and the four-way \<^verbatim>\<open>if\<close>, or the
  handler of \<^verbatim>\<open>requests.RequestException\<close>, which only logs.\<close>

definition accuracy_probe :: "world \<Rightarrow> test_case \<Rightarrow> buckets \<Rightarrow> tester \<Rightarrow> buckets \<times> tester" where
  "accuracy_probe w tc b s =
    (case tc of (url, should_block, description) \<Rightarrow>
       (case http_get w (step s) url of
          Response text \<Rightarrow>
            let blocked = is_blocked text; s1 = tick s in
            if should_block \<and> blocked
            then (b\<lparr>correct_blocks := Suc (correct_blocks b)\<rparr>,
                  log_test (description @ '': Correctly blocked'') s1)
            else if \<not> should_block \<and> \<not> blocked
            then (b\<lparr>correct_allows := Suc (correct_allows b)\<rparr>,
                  log_test (description @ '': Correctly allowed'') s1)
            else if should_block \<and> \<not> blocked
            then (b\<lparr>false_negatives := Suc (false_negatives b)\<rparr>,
                  log_test (description @ '': Should block but allowed'') s1)
            else (b\<lparr>false_positives := Suc (false_positives b)\<rparr>,
                  log_test (description @ '': Should allow but blocked'') s1)
        | RequestException \<Rightarrow>
            (b, log_test (description @ '': Request failed'') (tick s))))"

fun accuracy_loop :: "world \<Rightarrow> test_case list \<Rightarrow> buckets \<Rightarrow> tester \<Rightarrow> buckets \<times> tester" where
  "accuracy_loop w [] b s = (b, s)"
| "accuracy_loop w (tc # rest) b s =
    (case accuracy_probe w tc b s of (b', s') \<Rightarrow> accuracy_loop w rest b' s')"

text \<open>\<^verbatim>\<open>(correct_results / total_tests) * 100 if total_tests > 0 else 0\<close>.\<close>

definition accuracy_of :: "nat \<Rightarrow> nat \<Rightarrow> error + real" where
  "accuracy_of correct_results total_tests =
    (if total_tests > 0
     then (case py_div (real correct_results) (real total_tests) of
             Inl e \<Rightarrow> Inl e | Inr q \<Rightarrow> Inr (q * 100))
     else Inr 0)"

definition accuracy_body :: "world \<Rightarrow> tester \<Rightarrow> (error + unit) \<times> tester" where
  "accuracy_body w s1 =
    (case accuracy_loop w test_cases
            \<lparr>correct_blocks = 0, correct_allows = 0, false_positives = 0,
             false_negatives = 0\<rparr> s1 of
       (b, s2) \<Rightarrow>
         let total_tests = length test_cases;
             correct_results = correct_blocks b + correct_allows b
         in (case accuracy_of correct_results total_tests of
               Inl e \<Rightarrow> (Inl e, s2)
             | Inr accuracy \<Rightarrow>
                (Inr (),
                 log_test ''Accuracy''
                   (set_result ''false_negatives'' (real (false_negatives b))
                     (set_result ''false_positives'' (real (false_positives b))
                       (set_result ''correct_allows'' (real (correct_allows b))
                         (set_result ''correct_blocks'' (real (correct_blocks b))
                           (set_result ''filter_accuracy'' accuracy s2))))))))"

definition test_blocking_accuracy ::
  "world \<Rightarrow> tester \<Rightarrow> ((error + unit) \<times> tester) option" where
  "test_blocking_accuracy w s =
    finally_stop w
      (case start_filter w (log_test accuracy_banner s) of
         None \<Rightarrow> None
       | Some (Inl e, s1) \<Rightarrow> Some (Inl e, s1)
       | Some (Inr u, s1) \<Rightarrow> Some (accuracy_body w s1))"

section \<open>Concurrency phase\<close>

definition concurrency_banner :: string where
  "concurrency_banner = ''Testing Concurrent Load...''"

definition make_request :: "world \<Rightarrow> nat \<Rightarrow> bool" where
  "make_request w n =
    (case http_get w n ''http://example.com'' of
       Response body \<Rightarrow> True
     | RequestException \<Rightarrow> False)"

text \<open>
  \<^verbatim>\<open>ThreadPoolExecutor(max_workers=n)\<close> raises \<^verbatim>\<open>ValueError\<close> when \<open>n \<le> 0\<close>
  (the documented behaviour of the standard library). Otherwise the \<open>n\<close> submitted
  requests take the next \<open>n\<close> answers of the world, and \<^verbatim>\<open>results\<close> lists them in the
  order of submission.
\<close>

definition concurrent_body :: "world \<Rightarrow> tester \<Rightarrow> (error + unit) \<times> tester" where
  "concurrent_body w s1 =
    (let s2 = log_test ''Starting concurrent connections'' s1;
         start_time = clock w (step s2);
         s3 = tick s2
     in if concurrent_connections s3 \<le> 0 then (Inl ValueError, s3)
        else
          let n = nat (concurrent_connections s3);
              results = map (make_request w) [step s3 ..< step s3 + n];
              s4 = s3\<lparr>step := step s3 + n\<rparr>;
              load_test_duration = clock w (step s4) - start_time;
              s5 = tick s4;
              successful_requests = length (filter (\<lambda>r. r) results);
              failed_requests = length results - successful_requests;
              s6 = set_result ''failed_requests'' (real failed_requests)
                     (set_result ''successful_requests'' (real successful_requests)
                       (set_result ''load_test_duration'' load_test_duration
                         (set_result ''concurrent_connections''
                           (real_of_int (concurrent_connections s5)) s5)))
          in (case py_div (real successful_requests)
                     (real_of_int (concurrent_connections s6)) of
                Inl e \<Rightarrow> (Inl e, s6)
              | Inr q \<Rightarrow>
                 (Inr (),
                  log_test ''Duration''
                    (log_test ''Successful''
                      (log_test ''Concurrent load results:''
                        (set_result ''concurrent_success_rate'' (q * 100) s6))))))"

definition test_concurrent_load ::
  "world \<Rightarrow> tester \<Rightarrow> ((error + unit) \<times> tester) option" where
  "test_concurrent_load w s =
    finally_stop w
      (case start_filter w (log_test concurrency_banner s) of
         None \<Rightarrow> None
       | Some (Inl e, s1) \<Rightarrow> Some (Inl e, s1)
       | Some (Inr u, s1) \<Rightarrow> Some (concurrent_body w s1))"

section \<open>Report\<close>

text \<open>
  The report is an f-string. A section is rendered when its guard key is in the results;
  the fields it formats with \<^verbatim>\<open>.get(k, 'N/A'):.2f\<close> raise \<^verbatim>\<open>ValueError\<close> when the
  key is missing, since \<^verbatim>\<open>'N/A'\<close> has no float format. The text itself is not modelled.
\<close>

definition report_sections :: "(string \<times> string list) list" where
  "report_sections =
    [(''avg_startup_time'', [''avg_startup_time'', ''min_startup_time'', ''max_startup_time'']),
     (''avg_memory_mb'', [''avg_memory_mb'', ''min_memory_mb'', ''max_memory_mb'']),
     (''requests_per_second'',
        [''requests_per_second'', ''block_rate'', ''avg_response_time'',
         ''min_response_time'', ''max_response_time'']),
     (''filter_accuracy'', [''filter_accuracy'']),
     (''concurrent_success_rate'', [''concurrent_success_rate'', ''load_test_duration''])]"

fun format_fields :: "results \<Rightarrow> string list \<Rightarrow> error + unit" where
  "format_fields m [] = Inr ()"
| "format_fields m (k # ks) =
    (case m k of None \<Rightarrow> Inl ValueError | Some v \<Rightarrow> format_fields m ks)"

fun format_sections :: "results \<Rightarrow> (string \<times> string list) list \<Rightarrow> error + unit" where
  "format_sections m [] = Inr ()"
| "format_sections m ((guard, ks) # rest) =
    (if contains_key m guard
     then (case format_fields m ks of
             Inl e \<Rightarrow> Inl e | Inr u \<Rightarrow> format_sections m rest)
     else format_sections m rest)"

definition generate_report :: "world \<Rightarrow> tester \<Rightarrow> (error + unit) \<times> tester" where
  "generate_report w s =
    (let s1 = log_test ''Generating Performance Report...'' s in
     case calculate_performance_grade s1 of
       Inl e \<Rightarrow> (Inl e, s1)
     | Inr (score, grade) \<Rightarrow>
        (case format_sections (test_results s1) report_sections of
           Inl e \<Rightarrow> (Inl e, s1)
         | Inr u \<Rightarrow>
            if file_write_ok w (step s1)
            then (Inr (), log_test ''Report saved'' (tick s1))
            else (Inl OSError, tick s1)))"

section \<open>Orchestration\<close>

text \<open>
  \<^verbatim>\<open>import name\<close>: a module in the import cache is returned from it; otherwise it is
  loaded when installed, and \<^verbatim>\<open>ImportError\<close> is raised when not.
\<close>

definition py_import :: "world \<Rightarrow> string list \<Rightarrow> string \<Rightarrow> error + string list" where
  "py_import w modules name =
    (if name \<in> set modules then Inr modules
     else if installed w name then Inr (name # modules)
     else Inl ImportError)"

text \<open>
  The module-level imports. A failing \<^verbatim>\<open>import requests\<close> ends the program before
  \<^verbatim>\<open>main\<close>; a failing \<^verbatim>\<open>import psutil\<close> is caught and clears \<^verbatim>\<open>HAS_PSUTIL\<close>.
  The imports of the standard library are taken to succeed.
\<close>

definition module_init :: "world \<Rightarrow> error + globals" where
  "module_init w =
    (case py_import w [] ''requests'' of
       Inl e \<Rightarrow> Inl e
     | Inr modules \<Rightarrow>
        (case py_import w modules ''psutil'' of
           Inr modules' \<Rightarrow> Inr \<lparr>sys_modules = modules', HAS_PSUTIL = True\<rparr>
         | Inl e \<Rightarrow> Inr \<lparr>sys_modules = modules, HAS_PSUTIL = False\<rparr>))"

definition check_dependencies :: "world \<Rightarrow> globals \<Rightarrow> tester \<Rightarrow> bool \<times> tester" where
  "check_dependencies w g s =
    (let s1 = log_test ''Checking dependencies...'' s in
     case py_import w (sys_modules g) ''requests'' of
       Inr modules \<Rightarrow>
         let s2 = log_test ''All required dependencies available'' s1
         in (True,
             if \<not> HAS_PSUTIL g
             then log_test ''psutil not installed - memory monitoring limited'' s2
             else s2)
     | Inl e \<Rightarrow> (False, log_test ''Missing required dependency'' s1))"

text \<open>Statements in sequence inside one \<^verbatim>\<open>try\<close>: the first exception ends the block.\<close>

fun run_seq ::
  "(tester \<Rightarrow> ((error + unit) \<times> tester) option) list \<Rightarrow> tester
     \<Rightarrow> ((error + unit) \<times> tester) option" where
  "run_seq [] s = Some (Inr (), s)"
| "run_seq (p # ps) s =
    (case p s of
       None \<Rightarrow> None
     | Some (Inl e, s') \<Rightarrow> Some (Inl e, s')
     | Some (Inr u, s') \<Rightarrow> run_seq ps s')"

definition phases ::
  "world \<Rightarrow> globals \<Rightarrow> (tester \<Rightarrow> ((error + unit) \<times> tester) option) list" where
  "phases w g =
    [measure_startup_performance w, measure_memory_usage w g,
     measure_filtering_performance w, test_blocking_accuracy w,
     test_concurrent_load w, (\<lambda>s. Some (generate_report w s))]"

definition failure_message :: string where
  "failure_message = ''Test execution failed''"

text \<open>The \<^verbatim>\<open>try\<close> block of \<^verbatim>\<open>run_all_tests\<close> with its handler
  \<^verbatim>\<open>except Exception\<close>, which logs and returns \<^verbatim>\<open>False\<close>.\<close>

definition try_phases :: "world \<Rightarrow> globals \<Rightarrow> tester \<Rightarrow> (bool \<times> tester) option" where
  "try_phases w g s1 =
    (case run_seq (phases w g) s1 of
       None \<Rightarrow> None
     | Some (Inr u, s2) \<Rightarrow> Some (True, s2)
     | Some (Inl e, s2) \<Rightarrow> Some (False, log_test failure_message s2))"

definition run_header :: "tester \<Rightarrow> tester" where
  "run_header s =
    log_test ''Test parameters''
      (log_test ''Starting PocketFence Universal Filter performance tests...'' s)"

definition run_all_tests :: "world \<Rightarrow> globals \<Rightarrow> tester \<Rightarrow> (bool \<times> tester) option" where
  "run_all_tests w g s =
    (case check_dependencies w g (run_header s) of
       (False, s1) \<Rightarrow> Some (False, s1)
     | (True, s1) \<Rightarrow> try_phases w g s1)"

text \<open>\<^verbatim>\<open>main\<close>: argparse takes any integers (\<^verbatim>\<open>type=int\<close>), defaults 30 and 50; the exit
  code is 0 on success and 1 otherwise.\<close>

definition default_duration :: int where
  "default_duration = 30"

definition default_connections :: int where
  "default_connections = 50"

definition main :: "world \<Rightarrow> globals \<Rightarrow> int \<Rightarrow> int \<Rightarrow> (int \<times> tester) option" where
  "main w g duration connections =
    (case run_all_tests w g (init_tester duration connections) of
       None \<Rightarrow> None
     | Some (success, s) \<Rightarrow> Some (if success then 0 else 1, s))"

text \<open>The program: the module-level imports, then \<^verbatim>\<open>main\<close>.\<close>

datatype outcome = Uncaught error | Exited int tester

definition program :: "world \<Rightarrow> int \<Rightarrow> int \<Rightarrow> outcome option" where
  "program w duration connections =
    (case module_init w of
       Inl e \<Rightarrow> Some (Uncaught e)
     | Inr g \<Rightarrow>
        (case main w g duration connections of
           None \<Rightarrow> None
         | Some (code, s) \<Rightarrow> Some (Exited code s)))"

section \<open>Notions of the specification\<close>

text \<open>The probe classification as the specification words it.\<close>

datatype classification = Allowed | Blocked | Failed

definition classify :: "http_result \<Rightarrow> classification" where
  "classify r =
    (case r of
       RequestException \<Rightarrow> Failed
     | Response body \<Rightarrow>
        if sublist ''PocketFence'' body \<and> sublist ''Content Blocked'' body then Blocked
        else Allowed)"

definition bucket_total :: "buckets \<Rightarrow> nat" where
  "bucket_total b = correct_blocks b + correct_allows b + false_positives b + false_negatives b"

text \<open>The four bucket entries of the results, in the order of the source.\<close>

definition bucket_counts :: "tester \<Rightarrow> real option list" where
  "bucket_counts s =
    map (test_results s)
      [''correct_blocks'', ''correct_allows'', ''false_positives'', ''false_negatives'']"

text \<open>How many of the probes of an accuracy loop that starts at interaction \<open>n\<close> fail
  at the network level: the loop makes one request per fixture.\<close>

fun failed_probes :: "world \<Rightarrow> nat \<Rightarrow> test_case list \<Rightarrow> nat" where
  "failed_probes w n [] = 0"
| "failed_probes w n (tc # rest) =
    (if http_get w n (fst tc) = RequestException then 1 else 0) + failed_probes w (Suc n) rest"

text \<open>
  The process-leak invariant on a trace of process events: a process is started only
  when none is running, a running process gets exactly one \<open>Terminated\<close>, a \<open>Killed\<close>
  only follows the \<open>Terminated\<close> of the same process, and no process is running at
  the end.
\<close>

datatype proc_state = Idle | Running nat | Ending nat

fun supervised :: "proc_state \<Rightarrow> event list \<Rightarrow> bool" where
  "supervised st [] = (case st of Running p \<Rightarrow> False | _ \<Rightarrow> True)"
| "supervised st (Started p # es) =
    (case st of Running q \<Rightarrow> False | _ \<Rightarrow> supervised (Running p) es)"
| "supervised st (Terminated p # es) = (st = Running p \<and> supervised (Ending p) es)"
| "supervised st (Killed p # es) = (st = Ending p \<and> supervised Idle es)"

text \<open>The clock never runs backwards and passes every instant.\<close>

definition clock_advances :: "world \<Rightarrow> bool" where
  "clock_advances w = (mono (clock w) \<and> (\<forall>t. \<exists>n. t \<le> clock w n))"

text \<open>The filter never answers the readiness probe.\<close>

definition never_ready :: "world \<Rightarrow> bool" where
  "never_ready w = (\<forall>n. http_get w n ready_url = RequestException)"

text \<open>A step of the harness that leaves the process handle and the process events as
  they are.\<close>

definition handle_kept :: "tester \<Rightarrow> tester \<Rightarrow> bool" where
  "handle_kept s s' = (events s' = events s \<and> filter_process s' = filter_process s)"

text \<open>The states a phase can be in after \<^verbatim>\<open>start_filter\<close>, seen from the state \<open>s\<close>
  before it: no process started and no handle, or one process started and its handle
  stored.\<close>

definition started_from :: "tester \<Rightarrow> tester \<Rightarrow> bool" where
  "started_from s s1 =
    (case filter_process s1 of
       None \<Rightarrow> events s1 = events s
     | Some pid \<Rightarrow> events s1 = events s @ [Started pid])"

text \<open>A phase returns (normally or with an exception), what it did to processes obeys
  the process-leak invariant, and it leaves no handle behind.\<close>

definition phase_supervised ::
  "(tester \<Rightarrow> ((error + unit) \<times> tester) option) \<Rightarrow> tester \<Rightarrow> bool" where
  "phase_supervised phase s =
    (\<exists>r s' ev. phase s = Some (r, s') \<and> events s' = events s @ ev \<and>
       supervised Idle ev \<and> filter_process s' = None)"

section \<open>Sample worlds\<close>

text \<open>A stub filter that blocks every URL containing \<open>violence\<close> or \<open>adult\<close>, on a
  machine where every interaction takes a second.\<close>

definition stub_filter :: "string \<Rightarrow> http_result" where
  "stub_filter url =
    Response (if sublist ''violence'' url \<or> sublist ''adult'' url
              then ''PocketFence: Content Blocked'' else ''ok'')"

definition world_ok :: world where
  "world_ok =
    \<lparr>installed = (\<lambda>name. True), find_exe = (\<lambda>n. Some ''PocketFence-Filter''),
     clock = (\<lambda>n. real n), popen = (\<lambda>n. Some n), http_get = (\<lambda>n. stub_filter),
     wait_expired = (\<lambda>n. False), memory_info = (\<lambda>n pid. Rss (30 * 1024 * 1024)),
     file_write_ok = (\<lambda>n. True)\<rparr>"

definition globals_ok :: globals where
  "globals_ok = \<lparr>sys_modules = [''psutil'', ''requests''], HAS_PSUTIL = True\<rparr>"

text \<open>No filter executable anywhere.\<close>

definition world_no_exe :: world where
  "world_no_exe = world_ok\<lparr>find_exe := (\<lambda>n. None)\<rparr>"

text \<open>The probe of the first fixture fails at the network level.\<close>

definition world_probe_failure :: world where
  "world_probe_failure =
    world_ok\<lparr>http_get := (\<lambda>n url. if url = ''http://education.com'' then RequestException
                                   else stub_filter url)\<rparr>"

text \<open>The filter process starts but never listens.\<close>

definition world_never_ready :: world where
  "world_never_ready = world_ok\<lparr>http_get := (\<lambda>n url. RequestException)\<rparr>"

text \<open>The filter runs, and sampling its memory is denied.\<close>

definition world_memory_denied :: world where
  "world_memory_denied = world_ok\<lparr>memory_info := (\<lambda>n pid. MemAccessDenied)\<rparr>"

text \<open>The state in which \<open>world_probe_failure\<close> leaves a fresh tester once the accuracy
  phase has started the filter.\<close>

definition state_listening :: tester where
  "state_listening =
    \<lparr>test_duration = 30, concurrent_connections = 50, test_results = Map.empty,
     test_log = [accuracy_banner], filter_process = Some 1, step = 5,
     events = [Started 1]\<rparr>"



text \<open>A clock that advances once in sixteen interactions.\<close>

definition world_coarse_clock :: world where
  "world_coarse_clock = world_ok\<lparr>clock := (\<lambda>n. real (n div 16))\<rparr>"

text \<open>A Ctrl-C during the first sleep of the first startup cycle of a fresh run (its
  sixth interaction), and a console closed from the seventh interaction on.\<close>

definition faults_ctrl_c :: faults where
  "faults_ctrl_c = \<lparr>interrupt = (\<lambda>n. n = 6), print_fails = (\<lambda>n. False)\<rparr>"

definition faults_closed_console :: faults where
  "faults_closed_console = \<lparr>interrupt = (\<lambda>n. False), print_fails = (\<lambda>n. 7 \<le> n)\<rparr>"

section \<open>Evaluation on concrete worlds\<close>

lemmas model_defs =
  tick_def log_test_def set_result_def find_filter_executable_def terminate_wait_kill_def
  stop_filter_def start_filter_def finally_stop_def record_stats_def mean_def py_div_def
  startup_cycle_def measure_startup_performance_def measure_memory_usage_def
  throughput_probe_def block_rate_of_def filtering_body_def measure_filtering_performance_def
  accuracy_probe_def accuracy_of_def accuracy_body_def test_blocking_accuracy_def
  make_request_def concurrent_body_def test_concurrent_load_def generate_report_def
  py_import_def check_dependencies_def phases_def try_phases_def run_header_def
  run_all_tests_def main_def init_tester_def is_blocked_def ready_url_def test_urls_def
  test_cases_def startup_banner_def memory_banner_def throughput_banner_def
  accuracy_banner_def concurrency_banner_def failure_message_def report_sections_def
  contains_key_def Let_def

lemmas world_defs = world_ok_def globals_ok_def stub_filter_def

section \<open>Properties of the score calculator\<close>

lemma in_and_lt_eq: "in_and_lt m k t = Inr (case m k of None \<Rightarrow> False | Some v \<Rightarrow> v < t)"
  by (simp add: in_and_lt_def contains_key_def getitem_def split: option.splits)

lemma in_and_gt_eq: "in_and_gt m k t = Inr (case m k of None \<Rightarrow> False | Some v \<Rightarrow> v > t)"
  by (simp add: in_and_gt_def contains_key_def getitem_def split: option.splits)

lemma below_pts_if:
  "(if (case m k of None \<Rightarrow> False | Some v \<Rightarrow> v < t) then n + p else n) = n + below_pts m k t p"
  by (simp add: below_pts_def split: option.splits)

lemma above_pts_if:
  "(if (case m k of None \<Rightarrow> False | Some v \<Rightarrow> v > t) then n + p else n) = n + above_pts m k t p"
  by (simp add: above_pts_def split: option.splits)

lemma grade_of_spec: "grade_of n = spec_grade n"
  by (simp add: grade_of_def spec_grade_def)

lemma score_refines:
  "calculate_performance_grade s =
     Inr (spec_score (test_results s), grade_of (spec_score (test_results s)))"
  by (simp add: calculate_performance_grade_def Let_def in_and_lt_eq in_and_gt_eq
      below_pts_if above_pts_if spec_score_def startup_pts_def memory_pts_def
      throughput_pts_def accuracy_pts_def concurrency_pts_def)

text \<open>
  C4. For every aggregate-results map the calculator raises nothing and returns the sum
  of the five contributions of the score table (a missing metric contributing 0),
  together with the grade of the fixed bands.
\<close>

theorem C4_score_and_grade:
  "calculate_performance_grade s =
     Inr (spec_score (test_results s), spec_grade (spec_score (test_results s)))"
  by (simp add: score_refines grade_of_spec)

lemma spec_score_upd:
  "passes k v' \<Longrightarrow> spec_score m \<le> spec_score (m(k \<mapsto> v'))"
  by (auto simp: passes_def spec_score_def startup_pts_def memory_pts_def throughput_pts_def
      accuracy_pts_def concurrency_pts_def below_pts_def above_pts_def
      split: if_splits option.splits)

text \<open>
  C5. The calculator reads nothing but the results map: two testers with equal maps get
  the same score and grade, whatever their logs, handles and configuration. Storing a
  value that passes its threshold under a scored metric, all other entries kept (whether
  the metric was absent or failed before), never lowers the score; both calls return
  without error.
\<close>

theorem C5_pure_and_monotone:
  "(test_results s = test_results s' \<longrightarrow>
      calculate_performance_grade s = calculate_performance_grade s') \<and>
   (passes k v' \<longrightarrow>
      (\<exists>sc g sc' g'.
         calculate_performance_grade (s\<lparr>test_results := m\<rparr>) = Inr (sc, g) \<and>
         calculate_performance_grade (s\<lparr>test_results := m(k \<mapsto> v')\<rparr>) = Inr (sc', g') \<and>
         sc \<le> sc'))"
  by (simp add: score_refines spec_score_upd)

theorem C5_witness:
  "passes ''filter_accuracy'' (175 / 2) \<and>
   test_results (init_tester 30 50) = test_results (log_test ''x'' (init_tester 30 50)) \<and>
   calculate_performance_grade (init_tester 30 50) =
     calculate_performance_grade (log_test ''x'' (init_tester 30 50)) \<and>
   (\<exists>sc g sc' g'.
      calculate_performance_grade
        ((init_tester 30 50)\<lparr>test_results := [''filter_accuracy'' \<mapsto> 50]\<rparr>) = Inr (sc, g) \<and>
      calculate_performance_grade
        ((init_tester 30 50)\<lparr>test_results :=
           [''filter_accuracy'' \<mapsto> 50, ''filter_accuracy'' \<mapsto> 175 / 2]\<rparr>) = Inr (sc', g') \<and>
      sc \<le> sc')"
  using C5_pure_and_monotone [of "init_tester 30 50" "log_test ''x'' (init_tester 30 50)"
      "''filter_accuracy''" "175 / 2" "[''filter_accuracy'' \<mapsto> 50]"]
  by (simp add: passes_def init_tester_def log_test_def)

section \<open>Probe classification\<close>

text \<open>
  C6. A probe is classified Blocked exactly when it returned a body holding both
  markers, and Failed exactly when the request raised. The throughput loop counts a
  probe as blocked exactly when it is Blocked (and counts every probe as a request); the
  accuracy loop puts a Blocked probe in a blocked bucket (correct-block or
  false-positive), an Allowed one in a not-blocked bucket, and a Failed one in none, so
  a network failure is never counted as blocked in either phase.
\<close>

theorem C6_blocked_classification:
  "(classify r = Blocked \<longleftrightarrow>
      (\<exists>body. r = Response body \<and> sublist ''PocketFence'' body \<and>
              sublist ''Content Blocked'' body)) \<and>
   (classify r = Failed \<longleftrightarrow> r = RequestException) \<and>
   blocked_count (fst (throughput_probe w url c n)) =
     blocked_count c + (if classify (http_get w (Suc n) url) = Blocked then 1 else 0) \<and>
   request_count (fst (throughput_probe w url c n)) = Suc (request_count c) \<and>
   fst (accuracy_probe w (url, should_block, description) b s) =
     (case classify (http_get w (step s) url) of
        Blocked \<Rightarrow>
          if should_block then b\<lparr>correct_blocks := Suc (correct_blocks b)\<rparr>
          else b\<lparr>false_positives := Suc (false_positives b)\<rparr>
      | Allowed \<Rightarrow>
          if should_block then b\<lparr>false_negatives := Suc (false_negatives b)\<rparr>
          else b\<lparr>correct_allows := Suc (correct_allows b)\<rparr>
      | Failed \<Rightarrow> b)"
proof -
  have a: "classify r = Blocked \<longleftrightarrow>
      (\<exists>body. r = Response body \<and> sublist ''PocketFence'' body \<and>
              sublist ''Content Blocked'' body)"
    by (cases r) (simp_all add: classify_def)
  have b: "classify r = Failed \<longleftrightarrow> r = RequestException"
    by (cases r) (simp_all add: classify_def)
  have c1: "blocked_count (fst (throughput_probe w url c n)) =
     blocked_count c + (if classify (http_get w (Suc n) url) = Blocked then 1 else 0)"
    by (cases "http_get w (Suc n) url")
       (simp_all add: throughput_probe_def classify_def is_blocked_def Let_def)
  have c2: "request_count (fst (throughput_probe w url c n)) = Suc (request_count c)"
    by (cases "http_get w (Suc n) url")
       (simp_all add: throughput_probe_def Let_def)
  have d: "fst (accuracy_probe w (url, should_block, description) b s) =
     (case classify (http_get w (step s) url) of
        Blocked \<Rightarrow>
          if should_block then b\<lparr>correct_blocks := Suc (correct_blocks b)\<rparr>
          else b\<lparr>false_positives := Suc (false_positives b)\<rparr>
      | Allowed \<Rightarrow>
          if should_block then b\<lparr>false_negatives := Suc (false_negatives b)\<rparr>
          else b\<lparr>correct_allows := Suc (correct_allows b)\<rparr>
      | Failed \<Rightarrow> b)"
    by (cases "http_get w (step s) url")
       (simp_all add: accuracy_probe_def classify_def is_blocked_def Let_def)
  from a b c1 c2 d show ?thesis by (intro conjI)
qed

section \<open>Accuracy buckets\<close>

lemma accuracy_probe_step: "step (snd (accuracy_probe w tc b s)) = Suc (step s)"
  by (cases tc; cases "http_get w (step s) (fst tc)")
     (simp_all add: accuracy_probe_def Let_def tick_def log_test_def)

lemma accuracy_probe_total:
  "bucket_total (fst (accuracy_probe w tc b s)) +
     (if http_get w (step s) (fst tc) = RequestException then 1 else 0) = Suc (bucket_total b)"
  by (cases tc; cases "http_get w (step s) (fst tc)")
     (simp_all add: accuracy_probe_def Let_def bucket_total_def)

lemma accuracy_probe_grows:
  "correct_blocks b \<le> correct_blocks (fst (accuracy_probe w tc b s)) \<and>
   correct_allows b \<le> correct_allows (fst (accuracy_probe w tc b s)) \<and>
   false_positives b \<le> false_positives (fst (accuracy_probe w tc b s)) \<and>
   false_negatives b \<le> false_negatives (fst (accuracy_probe w tc b s))"
  by (cases tc; cases "http_get w (step s) (fst tc)")
     (simp_all add: accuracy_probe_def Let_def)

lemma accuracy_loop_total:
  "bucket_total (fst (accuracy_loop w cs b s)) + failed_probes w (step s) cs =
     bucket_total b + length cs"
proof (induction cs arbitrary: b s)
  case Nil
  then show ?case by simp
next
  case (Cons tc cs)
  obtain b' s' where p: "accuracy_probe w tc b s = (b', s')" by (cases "accuracy_probe w tc b s")
  have st: "step s' = Suc (step s)" using accuracy_probe_step [of w tc b s] p by simp
  have tot: "bucket_total b' + (if http_get w (step s) (fst tc) = RequestException then 1 else 0)
      = Suc (bucket_total b)"
    using accuracy_probe_total [of w tc b s] p by simp
  have "bucket_total (fst (accuracy_loop w cs b' s')) + failed_probes w (Suc (step s)) cs =
     bucket_total b' + length cs"
    using Cons.IH [of b' s'] st by simp
  with tot p show ?case by simp
qed

lemma accuracy_body_results:
  "\<exists>b s2. accuracy_body w s1 = (Inr (), s2) \<and>
     bucket_counts s2 =
       [Some (real (correct_blocks b)), Some (real (correct_allows b)),
        Some (real (false_positives b)), Some (real (false_negatives b))] \<and>
     bucket_total b + failed_probes w (step s1) test_cases = length test_cases"
proof -
  obtain b s2 where l: "accuracy_loop w test_cases
      \<lparr>correct_blocks = 0, correct_allows = 0, false_positives = 0, false_negatives = 0\<rparr> s1
      = (b, s2)"
    by (cases "accuracy_loop w test_cases
      \<lparr>correct_blocks = 0, correct_allows = 0, false_positives = 0, false_negatives = 0\<rparr> s1")
  have "bucket_total b + failed_probes w (step s1) test_cases = length test_cases"
    using accuracy_loop_total [of w test_cases
      "\<lparr>correct_blocks = 0, correct_allows = 0, false_positives = 0, false_negatives = 0\<rparr>" s1] l
    by (simp add: bucket_total_def)
  moreover have "length test_cases > 0" by (simp add: test_cases_def)
  ultimately show ?thesis using l
    by (intro exI [of _ b])
       (simp add: accuracy_body_def accuracy_of_def py_div_def Let_def bucket_counts_def
        set_result_def log_test_def)
qed

lemma bucket_counts_stop: "bucket_counts (stop_filter w s) = bucket_counts s"
  by (simp add: bucket_counts_def stop_filter_def terminate_wait_kill_def tick_def Let_def
      split: option.splits)

text \<open>
  C3, as the code has it. When the accuracy phase has started the filter, it completes
  and records four bucket counts whose sum, together with the number of probes that
  failed at the network level, is the number of fixtures. One fixture changes the
  buckets as follows: no counter ever decreases, and the total grows by exactly one when
  the probe returned a response and not at all when the probe failed, so a fixture with
  a response is in exactly one bucket and a fixture with a failed probe is in none.
\<close>

theorem C3_bucket_partition_amended:
  assumes "start_filter w (log_test accuracy_banner s) = Some (Inr (), s1)"
  shows "\<exists>b s'. test_blocking_accuracy w s = Some (Inr (), s') \<and>
     bucket_counts s' =
       [Some (real (correct_blocks b)), Some (real (correct_allows b)),
        Some (real (false_positives b)), Some (real (false_negatives b))] \<and>
     bucket_total b + failed_probes w (step s1) test_cases = length test_cases \<and>
     bucket_total (fst (accuracy_probe w tc b0 s0)) =
       (if http_get w (step s0) (fst tc) = RequestException then bucket_total b0
        else Suc (bucket_total b0)) \<and>
     correct_blocks b0 \<le> correct_blocks (fst (accuracy_probe w tc b0 s0)) \<and>
     correct_allows b0 \<le> correct_allows (fst (accuracy_probe w tc b0 s0)) \<and>
     false_positives b0 \<le> false_positives (fst (accuracy_probe w tc b0 s0)) \<and>
     false_negatives b0 \<le> false_negatives (fst (accuracy_probe w tc b0 s0))"
proof -
  obtain b s2 where r: "accuracy_body w s1 = (Inr (), s2)"
    and c: "bucket_counts s2 =
       [Some (real (correct_blocks b)), Some (real (correct_allows b)),
        Some (real (false_positives b)), Some (real (false_negatives b))]"
    and t: "bucket_total b + failed_probes w (step s1) test_cases = length test_cases"
    using accuracy_body_results [of w s1] by blast
  have p: "test_blocking_accuracy w s = Some (Inr (), stop_filter w s2)"
    using assms r by (simp add: test_blocking_accuracy_def finally_stop_def)
  have q: "bucket_total (fst (accuracy_probe w tc b0 s0)) =
       (if http_get w (step s0) (fst tc) = RequestException then bucket_total b0
        else Suc (bucket_total b0))"
    using accuracy_probe_total [of w tc b0 s0] by (simp split: if_splits)
  show ?thesis
    using p c t q accuracy_probe_grows [of b0 w tc s0]
    by (intro exI [of _ b] exI [of _ "stop_filter w s2"]) (simp add: bucket_counts_stop)
qed

lemma start_listening:
  "start_filter world_probe_failure (log_test accuracy_banner (init_tester 30 50)) =
    Some (Inr (), state_listening)"
  by (simp add: model_defs world_defs world_probe_failure_def wait_listening.simps
      state_listening_def)

theorem C3_witness:
  "start_filter world_probe_failure (log_test accuracy_banner (init_tester 30 50)) =
     Some (Inr (), state_listening) \<and>
   (\<exists>b s'. test_blocking_accuracy world_probe_failure (init_tester 30 50) = Some (Inr (), s') \<and>
     bucket_counts s' =
       [Some (real (correct_blocks b)), Some (real (correct_allows b)),
        Some (real (false_positives b)), Some (real (false_negatives b))] \<and>
     bucket_total b + failed_probes world_probe_failure 5 test_cases = length test_cases \<and>
     failed_probes world_probe_failure 5 test_cases = 1)"
proof -
  have f: "failed_probes world_probe_failure 5 test_cases = 1"
    by (simp add: test_cases_def world_defs world_probe_failure_def)
  have st: "step state_listening = 5" by (simp add: state_listening_def)
  show ?thesis
    using C3_bucket_partition_amended [OF start_listening,
        of "(''http://education.com'', False, ''Educational site'')"
           "\<lparr>correct_blocks = 0, correct_allows = 0, false_positives = 0,
             false_negatives = 0\<rparr>"
           state_listening]
      start_listening f st
    by auto
qed

text \<open>
  The claim as stated fails: the probe of the first fixture, which expects allow, fails
  at the network level; the fixture is counted in no bucket (not in correct-allow), and
  the four counts sum to 7 for 8 fixtures.
\<close>

theorem C3_counterexample:
  "map_option (\<lambda>(r, s). (r, bucket_counts s))
     (test_blocking_accuracy world_probe_failure (init_tester 30 50)) =
     Some (Inr (), [Some 2, Some 2, Some 0, Some 3]) \<and>
   (2 + 2 + 0 + 3 :: nat) \<noteq> length test_cases \<and>
   test_cases ! 0 = (''http://education.com'', False, ''Educational site'') \<and>
   http_get world_probe_failure 5 ''http://education.com'' = RequestException"
  by (simp add: model_defs world_defs world_probe_failure_def wait_listening.simps
      bucket_counts_def sublist_Cons_right)

section \<open>Throughput with duration 0\<close>

text \<open>With duration 0 the loop makes no request when the clock does not run backwards
  between the reading that sets the end and the first loop test; the phase body then
  records 0 requests and a block rate of 0, provided the elapsed time it divides by is
  not 0.\<close>

lemma filtering_body_zero_duration:
  assumes "test_duration s1 = 0"
    and "clock w (Suc (step s1)) \<le> clock w (Suc (Suc (step s1)))"
    and "clock w (Suc (Suc (Suc (step s1)))) \<noteq> clock w (step s1)"
  shows "\<exists>s2. filtering_body w s1 = Some (Inr (), s2) \<and>
    test_results s2 ''total_requests'' = Some 0 \<and> test_results s2 ''block_rate'' = Some 0"
proof -
  have "throughput_while w (clock w (Suc (step s1)))
      \<lparr>request_count = 0, blocked_count = 0, response_times = []\<rparr> (Suc (Suc (step s1))) =
    Some (\<lparr>request_count = 0, blocked_count = 0, response_times = []\<rparr>,
          Suc (Suc (Suc (step s1))))"
    using assms(2) by (subst throughput_while.simps) simp
  with assms(1,3) show ?thesis
    by (simp add: filtering_body_def Let_def log_test_def tick_def py_div_def
        block_rate_of_def set_result_def)
qed

text \<open>
  C7. The block-rate computation is guarded and never divides by zero: it returns 0
  when no request was made. The division before it, requests by elapsed time, is not
  guarded. With duration 0 on a clock that does not advance between the start of the
  measurement and its end, the phase raises \<^verbatim>\<open>ZeroDivisionError\<close> and records neither
  the total nor the block rate.
\<close>

theorem C7_zero_duration_division:
  "map_option (\<lambda>(r, s). (r, map (test_results s) [''total_requests'', ''block_rate'']))
     (measure_filtering_performance world_coarse_clock (init_tester 0 50)) =
     Some (Inl ZeroDivisionError, [None, None]) \<and>
   block_rate_of blocked 0 = Inr 0 \<and>
   block_rate_of blocked requests \<noteq> Inl e"
  by (simp add: model_defs world_defs world_coarse_clock_def wait_listening.simps
      throughput_while.simps)

section \<open>Configuration\<close>

lemma start_filter_errors:
  "start_filter w s = Some (Inl e, s') \<Longrightarrow> e \<in> {FileNotFoundError, OSError, RuntimeError}"
  by (auto simp: start_filter_def find_filter_executable_def Let_def
      split: option.splits prod.splits if_splits)

lemma concurrent_body_no_zero_division: "fst (concurrent_body w s) \<noteq> Inl ZeroDivisionError"
  by (simp add: concurrent_body_def Let_def py_div_def set_result_def log_test_def tick_def)

lemma concurrent_load_no_zero_division:
  "test_concurrent_load w s \<noteq> Some (Inl ZeroDivisionError, s')"
proof
  assume a: "test_concurrent_load w s = Some (Inl ZeroDivisionError, s')"
  show False
  proof (cases "start_filter w (log_test concurrency_banner s)")
    case None
    with a show False by (simp add: test_concurrent_load_def finally_stop_def)
  next
    case (Some p)
    obtain r s1 where p: "p = (r, s1)" by (cases p)
    show False
    proof (cases r)
      case (Inl e)
      with a Some p have "e = ZeroDivisionError"
        by (simp add: test_concurrent_load_def finally_stop_def)
      moreover have "e \<in> {FileNotFoundError, OSError, RuntimeError}"
        using Some p Inl start_filter_errors by simp
      ultimately show False by simp
    next
      case (Inr u)
      with a Some p have "fst (concurrent_body w s1) = Inl ZeroDivisionError"
        by (cases "concurrent_body w s1")
           (simp add: test_concurrent_load_def finally_stop_def)
      then show False using concurrent_body_no_zero_division by simp
    qed
  qed
qed

text \<open>
  C9, as the code has it. The default configuration has duration 30 and concurrency
  50. A configuration is stored as given, with no validation. The success-rate
  division of the concurrency phase still never divides by zero: with a concurrency
  level of 0 or less the worker pool raises \<^verbatim>\<open>ValueError\<close> before the division.
\<close>

theorem C9_configuration_amended:
  "0 < test_duration (init_tester default_duration default_connections) \<and>
   1 \<le> concurrent_connections (init_tester default_duration default_connections) \<and>
   test_duration (init_tester duration connections) = duration \<and>
   concurrent_connections (init_tester duration connections) = connections \<and>
   fst (concurrent_body w s) \<noteq> Inl ZeroDivisionError \<and>
   test_concurrent_load w s \<noteq> Some (Inl ZeroDivisionError, s') \<and>
   (concurrent_connections s \<le> 0 \<longrightarrow> fst (concurrent_body w s) = Inl ValueError)"
  using concurrent_body_no_zero_division [of w s] concurrent_load_no_zero_division [of w s s']
  by (simp add: init_tester_def default_duration_def default_connections_def
      concurrent_body_def Let_def tick_def log_test_def)

theorem C9_witness:
  "concurrent_connections (init_tester 0 0) \<le> 0 \<and>
   fst (concurrent_body world_ok (init_tester 0 0)) = Inl ValueError \<and>
   fst (concurrent_body world_ok (init_tester 0 0)) \<noteq> Inl ZeroDivisionError"
  using C9_configuration_amended [of 0 0 world_ok "init_tester 0 0"]
  by (simp add: init_tester_def)

text \<open>
  The claim as stated fails: \<^verbatim>\<open>--duration 0 --connections 0\<close> is accepted and the run
  is made with duration 0 and concurrency 0.
\<close>

theorem C9_counterexample:
  "\<not> (0 < test_duration (init_tester 0 0) \<and> 1 \<le> concurrent_connections (init_tester 0 0)) \<and>
   map_option (\<lambda>(code, s). (code, test_duration s, concurrent_connections s))
     (main world_no_exe globals_ok 0 0) = Some (1, 0, 0)"
  by (simp add: model_defs world_defs world_no_exe_def)

section \<open>Pre-flight dependency check\<close>

lemma module_init_requests: "module_init w = Inr g \<Longrightarrow> ''requests'' \<in> set (sys_modules g)"
  by (auto simp: module_init_def py_import_def split: if_splits sum.splits)

text \<open>
  C10. In every world the program either ends at the module-level import with an
  uncaught \<^verbatim>\<open>ImportError\<close>, before \<^verbatim>\<open>main\<close>, or the pre-flight check returns
  true in every state and \<^verbatim>\<open>run_all_tests\<close> enters its \<^verbatim>\<open>try\<close> block: the return of
  a failed check is never taken.
\<close>

theorem C10_preflight_always_passes:
  "(\<exists>e. module_init w = Inl e \<and> program w duration connections = Some (Uncaught e)) \<or>
   (\<exists>g. module_init w = Inr g \<and> fst (check_dependencies w g s) \<and>
      run_all_tests w g s = try_phases w g (snd (check_dependencies w g (run_header s))))"
proof (cases "module_init w")
  case (Inl e)
  then show ?thesis by (simp add: program_def)
next
  case (Inr g)
  then have "''requests'' \<in> set (sys_modules g)" by (rule module_init_requests)
  then have pass: "fst (check_dependencies w g t)" for t
    by (simp add: check_dependencies_def py_import_def Let_def)
  obtain ok s1 where c: "check_dependencies w g (run_header s) = (ok, s1)"
    by (cases "check_dependencies w g (run_header s)")
  with pass [of "run_header s"] have "ok" by simp
  with c have "run_all_tests w g s =
      try_phases w g (snd (check_dependencies w g (run_header s)))"
    by (simp add: run_all_tests_def)
  with Inr pass [of s] show ?thesis by simp
qed

section \<open>Phase failures\<close>



lemma check_dependencies_keeps:
  "step (snd (check_dependencies w g s)) = step s \<and>
   test_results (snd (check_dependencies w g s)) = test_results s \<and>
   events (snd (check_dependencies w g s)) = events s \<and>
   filter_process (snd (check_dependencies w g s)) = filter_process s"
  by (simp add: check_dependencies_def Let_def log_test_def split: sum.splits)




section \<open>Termination of the clock-bound loops\<close>

lemma clock_reached:
  assumes "clock_advances w"
  shows "\<exists>N. \<forall>n\<ge>N. t \<le> clock w n"
proof -
  from assms obtain N where N: "t \<le> clock w N" unfolding clock_advances_def by blast
  from assms have "mono (clock w)" by (simp add: clock_advances_def)
  then have "\<forall>n\<ge>N. clock w N \<le> clock w n" by (simp add: mono_def)
  with N show ?thesis by (intro exI [of _ N]) force
qed

lemma wait_listening_returns:
  assumes "clock_advances w"
  shows "\<exists>r n'. wait_listening w start_time n = Some (r, n') \<and> (never_ready w \<longrightarrow> \<not> r)"
proof -
  from clock_reached [OF assms, of "start_time + 10"]
  obtain N where N: "\<forall>n\<ge>N. start_time + 10 \<le> clock w n" by blast
  show ?thesis
  proof (induction "N - n" arbitrary: n rule: less_induct)
    case less
    show ?case
    proof (cases "clock w n - start_time < 10")
      case False
      then show ?thesis by (subst wait_listening.simps) auto
    next
      case True
      have lt: "n < N"
      proof (rule ccontr)
        assume "\<not> n < N"
        with N have "start_time + 10 \<le> clock w n" by simp
        with True show False by simp
      qed
      show ?thesis
      proof (cases "http_get w (Suc n) ready_url")
        case (Response body)
        have "\<not> never_ready w"
        proof
          assume "never_ready w"
          then have "http_get w (Suc n) ready_url = RequestException"
            by (simp add: never_ready_def)
          with Response show False by simp
        qed
        with True Response show ?thesis
          by (subst wait_listening.simps) auto
      next
        case RequestException
        from lt have "N - (n + 2) < N - n" by simp
        from less [OF this] obtain r n' where
          "wait_listening w start_time (n + 2) = Some (r, n') \<and> (never_ready w \<longrightarrow> \<not> r)"
          by blast
        with True RequestException show ?thesis
          by (subst wait_listening.simps) simp
      qed
    qed
  qed
qed

lemma poll_ready_returns:
  assumes "clock_advances w"
  shows "\<exists>r n'. poll_ready w timeout n = Some (r, n') \<and> (never_ready w \<longrightarrow> r = None)"
proof -
  from clock_reached [OF assms, of timeout]
  obtain N where N: "\<forall>n\<ge>N. timeout \<le> clock w n" by blast
  show ?thesis
  proof (induction "N - n" arbitrary: n rule: less_induct)
    case less
    show ?case
    proof (cases "clock w n < timeout")
      case False
      then show ?thesis by (subst poll_ready.simps) simp
    next
      case True
      have lt: "n < N"
      proof (rule ccontr)
        assume "\<not> n < N"
        with N have "timeout \<le> clock w n" by simp
        with True show False by simp
      qed
      show ?thesis
      proof (cases "http_get w (Suc n) ready_url")
        case (Response body)
        have "\<not> never_ready w"
        proof
          assume "never_ready w"
          then have "http_get w (Suc n) ready_url = RequestException"
            by (simp add: never_ready_def)
          with Response show False by simp
        qed
        with True Response show ?thesis
          by (subst poll_ready.simps) simp
      next
        case RequestException
        from lt have "N - (n + 2) < N - n" by simp
        from less [OF this] obtain r n' where
          "poll_ready w timeout (n + 2) = Some (r, n') \<and> (never_ready w \<longrightarrow> r = None)"
          by blast
        with True RequestException show ?thesis
          by (subst poll_ready.simps) simp
      qed
    qed
  qed
qed

lemma throughput_probe_step: "n < snd (throughput_probe w url c n)"
  by (cases "http_get w (Suc n) url") (simp_all add: throughput_probe_def Let_def)

lemma throughput_for_step: "n \<le> snd (throughput_for w end_time urls c n)"
proof (induction urls arbitrary: c n)
  case Nil
  then show ?case by simp
next
  case (Cons url urls)
  obtain c' n' where p: "throughput_probe w url c n = (c', n')"
    by (cases "throughput_probe w url c n")
  with throughput_probe_step [of n w url c] have "n < n'" by simp
  moreover have "Suc n' \<le> snd (throughput_for w end_time urls c' (Suc n'))"
    by (rule Cons.IH)
  ultimately show ?case using p by simp
qed

lemma throughput_while_returns:
  assumes "clock_advances w"
  shows "\<exists>c' n'. throughput_while w end_time c n = Some (c', n')"
proof -
  from clock_reached [OF assms, of end_time]
  obtain N where N: "\<forall>n\<ge>N. end_time \<le> clock w n" by blast
  show ?thesis
  proof (induction "N - n" arbitrary: c n rule: less_induct)
    case less
    show ?case
    proof (cases "clock w n < end_time")
      case False
      then show ?thesis by (subst throughput_while.simps) simp
    next
      case True
      have lt: "n < N"
      proof (rule ccontr)
        assume "\<not> n < N"
        with N have "end_time \<le> clock w n" by simp
        with True show False by simp
      qed
      obtain c1 n1 where f: "throughput_for w end_time test_urls c (Suc n) = (c1, n1)"
        by (cases "throughput_for w end_time test_urls c (Suc n)")
      with throughput_for_step [of "Suc n" w end_time test_urls c] have "Suc n \<le> n1" by simp
      with lt have "N - n1 < N - n" by simp
      from less [OF this] obtain c' n' where
        "throughput_while w end_time c1 n1 = Some (c', n')" by blast
      with True f show ?thesis
        by (subst throughput_while.simps) simp
    qed
  qed
qed


section \<open>The process-leak invariant\<close>

lemma supervised_idle_ending: "supervised Idle es \<Longrightarrow> supervised (Ending p) es"
proof (cases es)
  case Nil
  then show ?thesis by simp
next
  case (Cons e es')
  assume "supervised Idle es"
  with Cons show ?thesis by (cases e) simp_all
qed

lemma supervised_append:
  "supervised st es \<Longrightarrow> supervised Idle fs \<Longrightarrow> supervised st (es @ fs)"
proof (induction es arbitrary: st)
  case Nil
  then show ?case by (cases st) (simp_all add: supervised_idle_ending)
next
  case (Cons e es)
  then show ?case by (cases e; cases st) simp_all
qed

lemma handle_kept_refl [simp]: "handle_kept s s"
  by (simp add: handle_kept_def)

lemma handle_kept_trans: "handle_kept s s1 \<Longrightarrow> handle_kept s1 s2 \<Longrightarrow> handle_kept s s2"
  by (simp add: handle_kept_def)

lemma handle_kept_simps [simp]:
  "handle_kept s (log_test m s') = handle_kept s s'"
  "handle_kept s (tick s') = handle_kept s s'"
  "handle_kept s (set_result k v s') = handle_kept s s'"
  "handle_kept s (record_stats name xs s') = handle_kept s s'"
  "handle_kept s (s'\<lparr>step := n\<rparr>) = handle_kept s s'"
  by (simp_all add: handle_kept_def log_test_def tick_def set_result_def record_stats_def)

lemma stop_filter_idle: "filter_process s = None \<Longrightarrow> stop_filter w s = s"
  by (simp add: stop_filter_def)

lemma stop_filter_twice: "stop_filter w (stop_filter w s) = stop_filter w s"
  by (simp add: stop_filter_def split: option.splits)

lemma terminate_wait_kill_events:
  "\<exists>ev. events (terminate_wait_kill w pid s) = events s @ ev \<and> supervised (Running pid) ev"
  by (simp add: terminate_wait_kill_def Let_def tick_def)

lemma terminate_wait_kill_handle:
  "filter_process (terminate_wait_kill w pid s) = filter_process s"
  by (simp add: terminate_wait_kill_def Let_def tick_def)

lemma stop_filter_supervised:
  assumes "started_from s s1"
  shows "\<exists>ev. events (stop_filter w s1) = events s @ ev \<and> supervised Idle ev \<and>
    filter_process (stop_filter w s1) = None"
proof (cases "filter_process s1")
  case None
  with assms show ?thesis by (simp add: started_from_def stop_filter_def)
next
  case (Some pid)
  from terminate_wait_kill_events [of w pid s1] obtain ev where
    ev: "events (terminate_wait_kill w pid s1) = events s1 @ ev" "supervised (Running pid) ev"
    by blast
  from assms Some have "events s1 = events s @ [Started pid]" by (simp add: started_from_def)
  with ev Some show ?thesis
    by (intro exI [of _ "Started pid # ev"]) (simp add: stop_filter_def)
qed

lemma started_from_kept: "started_from s s1 \<Longrightarrow> handle_kept s1 s2 \<Longrightarrow> started_from s s2"
  by (auto simp: started_from_def handle_kept_def split: option.splits)

lemma finally_stop_supervised:
  assumes "r = Some (x, s1)" and "started_from s s1"
  shows "\<exists>s' ev. finally_stop w r = Some (x, s') \<and> events s' = events s @ ev \<and>
    supervised Idle ev \<and> filter_process s' = None"
  using assms(1) stop_filter_supervised [OF assms(2), of w]
  by (auto simp: finally_stop_def)

lemma start_filter_returns:
  assumes "clock_advances w" and "filter_process s = None"
  shows "\<exists>r s1. start_filter w s = Some (r, s1) \<and> started_from s s1 \<and>
    (r = Inr () \<longrightarrow> filter_process s1 \<noteq> None) \<and> (never_ready w \<longrightarrow> r \<noteq> Inr ()) \<and>
    test_log s1 = test_log s \<and> test_results s1 = test_results s"
proof (cases "find_exe w (step s)")
  case None
  with assms(2) show ?thesis
    by (simp add: start_filter_def find_filter_executable_def started_from_def tick_def)
next
  case (Some exe)
  show ?thesis
  proof (cases "popen w (Suc (step s))")
    case None
    with Some assms(2) show ?thesis
      by (simp add: start_filter_def find_filter_executable_def started_from_def tick_def)
  next
    case (Some pid)
    from wait_listening_returns [OF assms(1), of "clock w (Suc (Suc (step s)))" "Suc (Suc (Suc (step s)))"]
    obtain l n' where
      wl: "wait_listening w (clock w (Suc (Suc (step s)))) (Suc (Suc (Suc (step s)))) = Some (l, n')"
      and nr: "never_ready w \<longrightarrow> \<not> l"
      by blast
    with Some \<open>find_exe w (step s) = Some exe\<close> show ?thesis
      by (auto simp: start_filter_def find_filter_executable_def started_from_def tick_def
          Let_def)
  qed
qed


lemma memory_loop_kept: "handle_kept s (snd (memory_loop w g is readings s))"
proof (induction "is" arbitrary: readings s)
  case Nil
  then show ?case by simp
next
  case (Cons i rest)
  show ?case
  proof (cases "HAS_PSUTIL g")
    case False
    have "handle_kept (log_test ''Memory reading: psutil not available'' s)
        (snd (memory_loop w g rest readings
           (log_test ''Memory reading: psutil not available'' s)))"
      by (rule Cons.IH)
    with False show ?thesis by (simp add: handle_kept_def log_test_def)
  next
    case True
    show ?thesis
    proof (cases "filter_process s")
      case None
      with True show ?thesis by simp
    next
      case (Some pid)
      show ?thesis
      proof (cases "memory_info w (step s) pid")
        case (Rss bytes)
        have "handle_kept (log_test ''Memory reading'' (tick s))
            (snd (memory_loop w g rest (readings @ [real bytes / 1024 / 1024])
               (log_test ''Memory reading'' (tick s))))"
          by (rule Cons.IH)
        with True Some Rss show ?thesis by (simp add: handle_kept_def log_test_def tick_def)
      next
        case NoSuchProcess
        with True Some show ?thesis by simp
      next
        case MemAccessDenied
        with True Some show ?thesis by simp
      qed
    qed
  qed
qed

lemma memory_body_kept:
  "\<exists>r s2. (case memory_loop w g is [] s1 of
             (Inl e, s2) \<Rightarrow> Some (Inl e, s2)
           | (Inr memory_readings, s2) \<Rightarrow>
              Some (Inr (),
                if memory_readings \<noteq> []
                then log_test ''Min, Max memory''
                       (log_test ''Average memory''
                         (record_stats ''memory_mb'' memory_readings s2))
                else s2)) = Some (r, s2) \<and> handle_kept s1 s2"
proof -
  obtain x s2 where m: "memory_loop w g is [] s1 = (x, s2)"
    by (cases "memory_loop w g is [] s1")
  with memory_loop_kept [of s1 w g "is" "[]"] have "handle_kept s1 s2" by simp
  with m show ?thesis by (cases x) simp_all
qed

lemma filtering_body_kept:
  assumes "clock_advances w"
  shows "\<exists>r s2. filtering_body w s1 = Some (r, s2) \<and> handle_kept s1 s2"
proof -
  let ?s2 = "log_test ''Sending test requests'' (tick s1)"
  from throughput_while_returns [OF assms,
      of "clock w (step ?s2) + real_of_int (test_duration ?s2)"
         "\<lparr>request_count = 0, blocked_count = 0, response_times = []\<rparr>" "step (tick ?s2)"]
  obtain c n where "throughput_while w (clock w (step ?s2) + real_of_int (test_duration ?s2))
         \<lparr>request_count = 0, blocked_count = 0, response_times = []\<rparr> (step (tick ?s2))
       = Some (c, n)"
    by blast
  then show ?thesis
    by (simp add: filtering_body_def Let_def py_div_def block_rate_of_def)
qed

lemma accuracy_probe_kept: "handle_kept s (snd (accuracy_probe w tc b s))"
  by (cases tc; cases "http_get w (step s) (fst tc)")
     (simp_all add: accuracy_probe_def Let_def)

lemma accuracy_loop_kept: "handle_kept s (snd (accuracy_loop w cs b s))"
proof (induction cs arbitrary: b s)
  case Nil
  then show ?case by simp
next
  case (Cons tc cs)
  obtain b' s' where p: "accuracy_probe w tc b s = (b', s')" by (cases "accuracy_probe w tc b s")
  with accuracy_probe_kept [of s w tc b] have "handle_kept s s'" by simp
  moreover have "handle_kept s' (snd (accuracy_loop w cs b' s'))" by (rule Cons.IH)
  ultimately show ?case using p by (simp add: handle_kept_def)
qed

lemma accuracy_body_kept: "handle_kept s1 (snd (accuracy_body w s1))"
proof -
  obtain b s2 where l: "accuracy_loop w test_cases
      \<lparr>correct_blocks = 0, correct_allows = 0, false_positives = 0, false_negatives = 0\<rparr> s1
      = (b, s2)"
    by (cases "accuracy_loop w test_cases
      \<lparr>correct_blocks = 0, correct_allows = 0, false_positives = 0, false_negatives = 0\<rparr> s1")
  with accuracy_loop_kept [of s1 w test_cases
      "\<lparr>correct_blocks = 0, correct_allows = 0, false_positives = 0, false_negatives = 0\<rparr>"]
  have "handle_kept s1 s2" by simp
  with l show ?thesis
    by (simp add: accuracy_body_def Let_def accuracy_of_def py_div_def test_cases_def)
qed

lemma concurrent_body_kept: "handle_kept s1 (snd (concurrent_body w s1))"
  by (simp add: concurrent_body_def Let_def py_div_def)


lemma started_from_log [simp]: "started_from (log_test m s) s1 = started_from s s1"
  by (simp add: started_from_def log_test_def split: option.splits)

lemma guarded_supervised:
  assumes "clock_advances w" and "filter_process s = None"
    and body: "\<And>s1. \<exists>r s2. body s1 = Some (r, s2) \<and> handle_kept s1 s2"
  shows "\<exists>r s' ev.
    finally_stop w
      (case start_filter w (log_test banner s) of
         None \<Rightarrow> None
       | Some (Inl e, s1) \<Rightarrow> Some (Inl e, s1)
       | Some (Inr u, s1) \<Rightarrow> body s1) = Some (r, s') \<and>
    events s' = events s @ ev \<and> supervised Idle ev \<and> filter_process s' = None"
proof -
  have "filter_process (log_test banner s) = None" using assms(2) by (simp add: log_test_def)
  from start_filter_returns [OF assms(1) this]
  obtain r s1 where sf: "start_filter w (log_test banner s) = Some (r, s1)"
    and st: "started_from s s1"
    by auto
  show ?thesis
  proof (cases r)
    case (Inl e)
    with sf have "(case start_filter w (log_test banner s) of
         None \<Rightarrow> None
       | Some (Inl e, s1) \<Rightarrow> Some (Inl e, s1)
       | Some (Inr u, s1) \<Rightarrow> body s1) = Some (Inl e, s1)" by simp
    from finally_stop_supervised [OF this st, of w] show ?thesis by blast
  next
    case (Inr u)
    from body [of s1] obtain r2 s2 where b: "body s1 = Some (r2, s2)" and k: "handle_kept s1 s2"
      by blast
    from Inr sf b have "(case start_filter w (log_test banner s) of
         None \<Rightarrow> None
       | Some (Inl e, s1) \<Rightarrow> Some (Inl e, s1)
       | Some (Inr u, s1) \<Rightarrow> body s1) = Some (r2, s2)" by simp
    from finally_stop_supervised [OF this started_from_kept [OF st k], of w]
    show ?thesis by blast
  qed
qed

lemma memory_phase_supervised:
  assumes "clock_advances w" and "filter_process s = None"
  shows "phase_supervised (measure_memory_usage w g) s"
  unfolding phase_supervised_def measure_memory_usage_def
  by (rule guarded_supervised [OF assms]) (rule memory_body_kept)

lemma throughput_phase_supervised:
  assumes "clock_advances w" and "filter_process s = None"
  shows "phase_supervised (measure_filtering_performance w) s"
  unfolding phase_supervised_def measure_filtering_performance_def
  by (rule guarded_supervised [OF assms]) (rule filtering_body_kept [OF assms(1)])

lemma accuracy_phase_supervised:
  assumes "clock_advances w" and "filter_process s = None"
  shows "phase_supervised (test_blocking_accuracy w) s"
  unfolding phase_supervised_def test_blocking_accuracy_def
proof (rule guarded_supervised [OF assms])
  fix s1
  show "\<exists>r s2. Some (accuracy_body w s1) = Some (r, s2) \<and> handle_kept s1 s2"
    using accuracy_body_kept [of s1 w] by (cases "accuracy_body w s1") simp
qed

lemma concurrency_phase_supervised:
  assumes "clock_advances w" and "filter_process s = None"
  shows "phase_supervised (test_concurrent_load w) s"
  unfolding phase_supervised_def test_concurrent_load_def
proof (rule guarded_supervised [OF assms])
  fix s1
  show "\<exists>r s2. Some (concurrent_body w s1) = Some (r, s2) \<and> handle_kept s1 s2"
    using concurrent_body_kept [of s1 w] by (cases "concurrent_body w s1") simp
qed

lemma startup_cycle_supervised:
  assumes "clock_advances w"
  shows "\<exists>r s' ev. startup_cycle w exe ts s = Some (r, s') \<and> events s' = events s @ ev \<and>
    supervised Idle ev \<and> filter_process s' = filter_process s"
proof (cases "popen w (Suc (step s))")
  case None
  then show ?thesis
    by (simp add: startup_cycle_def Let_def log_test_def tick_def)
next
  case (Some pid)
  from poll_ready_returns [OF assms, of "clock w (Suc (Suc (step s))) + 10" "Suc (Suc (Suc (step s)))"]
  obtain rt n where
    "poll_ready w (clock w (Suc (Suc (step s))) + 10) (Suc (Suc (Suc (step s)))) = Some (rt, n)"
    by blast
  with Some show ?thesis
    by (cases rt)
       (auto simp: startup_cycle_def Let_def log_test_def tick_def terminate_wait_kill_def)
qed

lemma startup_loop_supervised:
  assumes "clock_advances w"
  shows "\<exists>r s' ev. startup_loop w exe is ts s = Some (r, s') \<and> events s' = events s @ ev \<and>
    supervised Idle ev \<and> filter_process s' = filter_process s"
proof (induction "is" arbitrary: ts s)
  case Nil
  then show ?case by simp
next
  case (Cons i rest)
  from startup_cycle_supervised [OF assms, of exe ts s]
  obtain r s1 ev1 where c: "startup_cycle w exe ts s = Some (r, s1)"
    and e1: "events s1 = events s @ ev1" "supervised Idle ev1"
    and f1: "filter_process s1 = filter_process s"
    by blast
  show ?case
  proof (cases r)
    case (Inl e)
    with c e1 f1 show ?thesis by auto
  next
    case (Inr ts')
    from Cons.IH [of ts' s1]
    obtain r2 s2 ev2 where l: "startup_loop w exe rest ts' s1 = Some (r2, s2)"
      and e2: "events s2 = events s1 @ ev2" "supervised Idle ev2"
      and f2: "filter_process s2 = filter_process s1"
      by blast
    from e1 e2 have "events s2 = events s @ (ev1 @ ev2)" by simp
    moreover from e1 e2 have "supervised Idle (ev1 @ ev2)" by (simp add: supervised_append)
    ultimately show ?thesis using c Inr l f1 f2 by auto
  qed
qed

lemma startup_phase_supervised:
  assumes "clock_advances w" and "filter_process s = None"
  shows "phase_supervised (measure_startup_performance w) s"
proof (cases "find_exe w (step s)")
  case None
  with assms(2) show ?thesis
    by (simp add: phase_supervised_def measure_startup_performance_def
        find_filter_executable_def log_test_def tick_def)
next
  case (Some exe)
  let ?s1 = "tick (log_test startup_banner s)"
  from startup_loop_supervised [OF assms(1), of exe "[1, 2, 3, 4, 5]" "[]" ?s1]
  obtain r s2 ev where l: "startup_loop w exe [1, 2, 3, 4, 5] [] ?s1 = Some (r, s2)"
    and e: "events s2 = events ?s1 @ ev" "supervised Idle ev"
    and f: "filter_process s2 = filter_process ?s1"
    by blast
  from Some l e f assms(2) show ?thesis
    by (cases r)
       (auto simp: phase_supervised_def measure_startup_performance_def
          find_filter_executable_def log_test_def tick_def record_stats_def set_result_def)
qed


lemma clock_advances_real: "clock w = real \<Longrightarrow> clock_advances w"
  by (simp add: clock_advances_def mono_def real_arch_simple)

text \<open>
  Without interrupts and console failures: on a clock that advances, every phase
  entered without a live handle returns, by normal return or by exception, the process
  events it caused obey the process-leak invariant, and no handle is left behind.
  Stopping without a live handle changes nothing, so a second stop is a no-op.
\<close>

lemma phases_supervised_without_faults:
  assumes "clock_advances w" and "filter_process s = None"
  shows "phase_supervised (measure_startup_performance w) s \<and>
    phase_supervised (measure_memory_usage w g) s \<and>
    phase_supervised (measure_filtering_performance w) s \<and>
    phase_supervised (test_blocking_accuracy w) s \<and>
    phase_supervised (test_concurrent_load w) s \<and>
    stop_filter w s = s \<and>
    stop_filter w (stop_filter w t) = stop_filter w t"
  using startup_phase_supervised [OF assms] memory_phase_supervised [OF assms]
    throughput_phase_supervised [OF assms] accuracy_phase_supervised [OF assms]
    concurrency_phase_supervised [OF assms] stop_filter_idle [OF assms(2)]
    stop_filter_twice
  by simp

section \<open>The startup phase under faults\<close>

lemmas faulty_defs = log_test_faulty_def clean_shutdown_faulty_def startup_cycle_faulty_def
  measure_startup_performance_faulty_def

lemma poll_ready_to_faulty:
  assumes "poll_ready w timeout n = Some y"
  shows "poll_ready_faulty no_faults w timeout n = Some (Inr (fst y), snd y)"
proof (rule poll_ready.raw_induct
    [where P = "\<lambda>w timeout n y.
       poll_ready_faulty no_faults w timeout n = Some (Inr (fst y), snd y)", OF _ assms])
  fix poll w timeout n y
  assume IH: "\<And>w timeout n y. poll w timeout n = Some y \<Longrightarrow>
      poll_ready_faulty no_faults w timeout n = Some (Inr (fst y), snd y)"
    and eq: "(if clock w n < timeout
      then case http_get w (Suc n) ready_url of
           Response body \<Rightarrow> Some (Some (clock w (n + 2)), n + 3)
         | RequestException \<Rightarrow> poll w timeout (n + 2)
      else Some (None, Suc n)) = Some y"
  show "poll_ready_faulty no_faults w timeout n = Some (Inr (fst y), snd y)"
  proof (cases "clock w n < timeout")
    case False
    with eq show ?thesis by (subst poll_ready_faulty.simps) auto
  next
    case True
    show ?thesis
    proof (cases "http_get w (Suc n) ready_url")
      case (Response body)
      with True eq show ?thesis by (subst poll_ready_faulty.simps) auto
    next
      case RequestException
      with True eq have "poll w timeout (n + 2) = Some y" by simp
      from IH [OF this] True RequestException show ?thesis
        by (subst poll_ready_faulty.simps) (simp add: no_faults_def)
    qed
  qed
qed

lemma poll_ready_from_faulty:
  assumes "poll_ready_faulty no_faults w timeout n = Some y"
  shows "\<exists>r. fst y = Inr r \<and> poll_ready w timeout n = Some (r, snd y)"
proof -
  have "no_faults = no_faults \<longrightarrow>
      (\<exists>r. fst y = Inr r \<and> poll_ready w timeout n = Some (r, snd y))"
  proof (rule poll_ready_faulty.raw_induct
      [where P = "\<lambda>f w timeout n y. f = no_faults \<longrightarrow>
         (\<exists>r. fst y = Inr r \<and> poll_ready w timeout n = Some (r, snd y))", OF _ assms])
    fix poll f w timeout n y
    assume IH: "\<And>f w timeout n y. poll f w timeout n = Some y \<Longrightarrow>
        f = no_faults \<longrightarrow> (\<exists>r. fst y = Inr r \<and> poll_ready w timeout n = Some (r, snd y))"
      and eq: "(if clock w n < timeout
        then case http_get w (Suc n) ready_url of
             Response body \<Rightarrow> Some (Inr (Some (clock w (n + 2))), n + 3)
           | RequestException \<Rightarrow>
               if interrupt f (n + 2) then Some (Inl KeyboardInterrupt, n + 2)
               else poll f w timeout (n + 2)
        else Some (Inr None, Suc n)) = Some y"
    show "f = no_faults \<longrightarrow>
        (\<exists>r. fst y = Inr r \<and> poll_ready w timeout n = Some (r, snd y))"
    proof
      assume f: "f = no_faults"
      show "\<exists>r. fst y = Inr r \<and> poll_ready w timeout n = Some (r, snd y)"
      proof (cases "clock w n < timeout")
        case False
        with eq show ?thesis by (subst poll_ready.simps) auto
      next
        case True
        show ?thesis
        proof (cases "http_get w (Suc n) ready_url")
          case (Response body)
          with True eq show ?thesis by (subst poll_ready.simps) auto
        next
          case RequestException
          with True eq f have "poll f w timeout (n + 2) = Some y"
            by (simp add: no_faults_def)
          from IH [OF this] f True RequestException show ?thesis
            by (subst poll_ready.simps) simp
        qed
      qed
    qed
  qed
  then show ?thesis by simp
qed

lemma poll_ready_faulty_no_faults:
  "poll_ready_faulty no_faults w timeout n =
     map_option (\<lambda>(r, n'). (Inr r, n')) (poll_ready w timeout n)"
proof (cases "poll_ready w timeout n")
  case (Some y)
  with poll_ready_to_faulty [OF Some] show ?thesis by (cases y) simp
next
  case None
  show ?thesis
  proof (cases "poll_ready_faulty no_faults w timeout n")
    case (Some y)
    from poll_ready_from_faulty [OF Some] None show ?thesis by auto
  next
    case n: None
    with None show ?thesis by simp
  qed
qed

lemma log_test_faulty_no_faults [simp]:
  "log_test_faulty no_faults m s = (Inr (), log_test m s)"
  by (simp add: log_test_faulty_def no_faults_def)

lemma clean_shutdown_no_faults [simp]:
  "clean_shutdown_faulty no_faults w pid ts s = (Inr ts, terminate_wait_kill w pid s)"
  by (simp add: clean_shutdown_faulty_def no_faults_def Let_def)

lemma startup_cycle_faulty_no_faults:
  "startup_cycle_faulty no_faults w exe ts s =
     map_option (\<lambda>(r, s'). (raise_of r, s')) (startup_cycle w exe ts s)"
  by (simp add: startup_cycle_faulty_def startup_cycle_def poll_ready_faulty_no_faults
      raise_of_def Let_def split: option.splits prod.splits)

lemma startup_loop_faulty_no_faults:
  "startup_loop_faulty no_faults w exe is ts s =
     map_option (\<lambda>(r, s'). (raise_of r, s')) (startup_loop w exe is ts s)"
proof (induction "is" arbitrary: ts s)
  case Nil
  then show ?case by (simp add: raise_of_def)
next
  case (Cons i rest)
  then show ?case
    by (simp add: startup_cycle_faulty_no_faults raise_of_def
        split: option.splits prod.splits sum.splits)
qed

lemma startup_faulty_no_faults:
  "measure_startup_performance_faulty no_faults w s =
     map_option (\<lambda>(r, s'). (raise_of r, s')) (measure_startup_performance w s)"
  by (simp add: measure_startup_performance_faulty_def measure_startup_performance_def
      startup_loop_faulty_no_faults raise_of_def
      del: startup_loop.simps startup_loop_faulty.simps
      split: option.splits prod.splits sum.splits)

text \<open>
  C2. The claim fails for the startup phase on an exit by exception. A fresh run polls a
  filter that is not listening; a Ctrl-C during the sleep of the readiness loop leaves the
  phase with the \<^verbatim>\<open>KeyboardInterrupt\<close>, the launched process 2 never terminated. A
  console closed when the startup time is logged does the same with an \<^verbatim>\<open>OSError\<close>.
  The Memory phase, a sibling with \<^verbatim>\<open>try ... finally\<close>, stops its process when
  sampling raises.
\<close>

theorem C2_startup_leaks_process:
  "map_option (\<lambda>(r, s). (r, events s, supervised Idle (events s)))
     (measure_startup_performance_faulty faults_ctrl_c world_never_ready (init_tester 30 50)) =
     Some (Inl KeyboardInterrupt, [Started 2], False) \<and>
   map_option (\<lambda>(r, s). (r, events s, supervised Idle (events s)))
     (measure_startup_performance_faulty faults_closed_console world_ok (init_tester 30 50)) =
     Some (Inl (Exception OSError), [Started 2], False) \<and>
   map_option (\<lambda>(r, s). (r, events s, supervised Idle (events s)))
     (measure_memory_usage world_memory_denied globals_ok (init_tester 30 50)) =
     Some (Inl AccessDenied, [Started 1, Terminated 1], True)"
  by (simp add: model_defs faulty_defs world_defs world_never_ready_def world_memory_denied_def
      faults_ctrl_c_def faults_closed_console_def wait_listening.simps
      poll_ready_faulty.simps)

section \<open>A filter that never becomes ready\<close>

lemma start_filter_never_ready:
  assumes "clock_advances w" and "never_ready w"
  shows "\<exists>e s1. start_filter w s = Some (Inl e, s1) \<and> test_log s1 = test_log s"
proof (cases "find_exe w (step s)")
  case None
  then show ?thesis
    by (simp add: start_filter_def find_filter_executable_def tick_def)
next
  case (Some exe)
  show ?thesis
  proof (cases "popen w (Suc (step s))")
    case None
    with Some show ?thesis
      by (simp add: start_filter_def find_filter_executable_def tick_def)
  next
    case (Some pid)
    from wait_listening_returns [OF assms(1), of "clock w (Suc (Suc (step s)))" "Suc (Suc (Suc (step s)))"]
      assms(2)
    obtain n' where
      "wait_listening w (clock w (Suc (Suc (step s)))) (Suc (Suc (Suc (step s)))) = Some (False, n')"
      by auto
    with Some \<open>find_exe w (step s) = Some exe\<close> show ?thesis
      by (simp add: start_filter_def find_filter_executable_def tick_def Let_def)
  qed
qed

lemma stop_filter_log: "test_log (stop_filter w s) = test_log s"
  by (simp add: stop_filter_def terminate_wait_kill_def Let_def tick_def split: option.splits)

lemma memory_never_ready:
  assumes "clock_advances w" and "never_ready w"
  shows "\<exists>e s'. measure_memory_usage w g s = Some (Inl e, s') \<and>
    test_log s' = test_log s @ [memory_banner]"
proof -
  from start_filter_never_ready [OF assms, of "log_test memory_banner s"]
  obtain e s1 where "start_filter w (log_test memory_banner s) = Some (Inl e, s1)"
    and "test_log s1 = test_log (log_test memory_banner s)"
    by blast
  then show ?thesis
    by (simp add: measure_memory_usage_def finally_stop_def stop_filter_log log_test_def)
qed

lemma startup_cycle_never_ready:
  assumes "clock_advances w" and "never_ready w" and "\<forall>n. popen w n \<noteq> None"
  shows "\<exists>s'. startup_cycle w exe ts s = Some (Inr ts, s') \<and>
    test_log s' = test_log s @ [''Startup test'', ''Startup timeout!''] \<and>
    test_results s' = test_results s"
proof -
  from assms(3) obtain pid where p: "popen w (Suc (step s)) = Some pid" by auto
  from poll_ready_returns [OF assms(1), of "clock w (Suc (Suc (step s))) + 10" "Suc (Suc (Suc (step s)))"]
    assms(2)
  obtain n where
    "poll_ready w (clock w (Suc (Suc (step s))) + 10) (Suc (Suc (Suc (step s)))) = Some (None, n)"
    by auto
  with p show ?thesis
    by (simp add: startup_cycle_def Let_def log_test_def tick_def terminate_wait_kill_def)
qed

lemma startup_loop_never_ready:
  assumes "clock_advances w" and "never_ready w" and "\<forall>n. popen w n \<noteq> None"
  shows "\<exists>s'. startup_loop w exe is ts s = Some (Inr ts, s') \<and>
    test_log s' = test_log s @ concat (map (\<lambda>i. [''Startup test'', ''Startup timeout!'']) is) \<and>
    test_results s' = test_results s"
proof (induction "is" arbitrary: s)
  case Nil
  then show ?case by simp
next
  case (Cons i rest)
  from startup_cycle_never_ready [OF assms, of exe ts s]
  obtain s1 where c: "startup_cycle w exe ts s = Some (Inr ts, s1)"
    and l1: "test_log s1 = test_log s @ [''Startup test'', ''Startup timeout!'']"
    and r1: "test_results s1 = test_results s"
    by blast
  from Cons.IH [of s1] obtain s2 where "startup_loop w exe rest ts s1 = Some (Inr ts, s2)"
    and "test_log s2 = test_log s1 @
      concat (map (\<lambda>i. [''Startup test'', ''Startup timeout!'']) rest)"
    and "test_results s2 = test_results s1"
    by blast
  with c l1 r1 show ?case by simp
qed

lemma startup_never_ready:
  assumes "clock_advances w" and "never_ready w" and "\<forall>n. popen w n \<noteq> None"
    and "find_exe w (step s) \<noteq> None"
  shows "\<exists>s'. measure_startup_performance w s = Some (Inr (), s') \<and>
    test_log s' = test_log s @
      startup_banner # concat (replicate 5 [''Startup test'', ''Startup timeout!'']) \<and>
    test_results s' = test_results s"
proof -
  from assms(4) obtain exe where e: "find_exe w (step s) = Some exe" by auto
  from startup_loop_never_ready [OF assms(1-3), of exe "[1, 2, 3, 4, 5]" "[]"
      "tick (log_test startup_banner s)"]
  obtain s2 where "startup_loop w exe [1, 2, 3, 4, 5] [] (tick (log_test startup_banner s)) =
      Some (Inr [], s2)"
    and "test_log s2 = test_log (tick (log_test startup_banner s)) @
      concat (map (\<lambda>i. [''Startup test'', ''Startup timeout!'']) [1, 2, 3, 4, 5::nat])"
    and "test_results s2 = test_results (tick (log_test startup_banner s))"
    by blast
  with e show ?thesis
    by (simp add: measure_startup_performance_def find_filter_executable_def log_test_def
        tick_def eval_nat_numeral)
qed

text \<open>
  C8. On a clock that advances, with an executable that launches and a filter that never
  answers the readiness probe, the startup phase returns normally; each of its five
  cycles logs a timeout and adds no measurement (no zero either), so the phase stores no
  startup metric and the results are unchanged. A results map without the mean startup
  time gets no startup points: the score is the sum of the other four contributions.
  The run then enters the Memory phase.
\<close>

theorem C8_never_ready_startup:
  assumes "clock_advances w" and "never_ready w" and "\<forall>n. popen w n \<noteq> None"
    and "find_exe w (step s) \<noteq> None"
    and "test_results s ''avg_startup_time'' = None"
    and "fst (check_dependencies w g (run_header s))"
  shows "(\<exists>s'. measure_startup_performance w s = Some (Inr (), s') \<and>
      test_log s' = test_log s @
        startup_banner # concat (replicate 5 [''Startup test'', ''Startup timeout!'']) \<and>
      test_results s' = test_results s \<and>
      test_results s' ''avg_startup_time'' = None \<and>
      startup_pts (test_results s') = 0 \<and>
      calculate_performance_grade s' =
        Inr (memory_pts (test_results s') + throughput_pts (test_results s') +
             accuracy_pts (test_results s') + concurrency_pts (test_results s'),
             spec_grade (spec_score (test_results s')))) \<and>
    (\<exists>ok s''. run_all_tests w g s = Some (ok, s'') \<and> memory_banner \<in> set (test_log s''))"
proof -
  from startup_never_ready [OF assms(1-4)]
  obtain s' where a: "measure_startup_performance w s = Some (Inr (), s')"
    and b: "test_log s' = test_log s @
        startup_banner # concat (replicate 5 [''Startup test'', ''Startup timeout!''])"
    and c: "test_results s' = test_results s"
    by blast
  from c assms(5) have d: "test_results s' ''avg_startup_time'' = None" by simp
  then have z: "startup_pts (test_results s') = 0"
    by (simp add: startup_pts_def below_pts_def)
  then have sc: "calculate_performance_grade s' =
        Inr (memory_pts (test_results s') + throughput_pts (test_results s') +
             accuracy_pts (test_results s') + concurrency_pts (test_results s'),
             spec_grade (spec_score (test_results s')))"
    by (simp add: score_refines grade_of_spec spec_score_def)
  obtain s1 where ch: "check_dependencies w g (run_header s) = (True, s1)"
    using assms(6) by (cases "check_dependencies w g (run_header s)") simp
  with check_dependencies_keeps [of w g "run_header s"] have "step s1 = step s"
    by (simp add: run_header_def log_test_def)
  with assms(4) have "find_exe w (step s1) \<noteq> None" by simp
  from startup_never_ready [OF assms(1-3) this]
  obtain s2 where p1: "measure_startup_performance w s1 = Some (Inr (), s2)" by blast
  from memory_never_ready [OF assms(1,2), of g s2]
  obtain e s3 where p2: "measure_memory_usage w g s2 = Some (Inl e, s3)"
    and l3: "test_log s3 = test_log s2 @ [memory_banner]"
    by blast
  from ch p1 p2 have "run_all_tests w g s = Some (False, log_test failure_message s3)"
    by (simp add: run_all_tests_def try_phases_def phases_def)
  moreover from l3 have "memory_banner \<in> set (test_log (log_test failure_message s3))"
    by (simp add: log_test_def)
  ultimately have r: "\<exists>ok s''. run_all_tests w g s = Some (ok, s'') \<and>
      memory_banner \<in> set (test_log s'')"
    by blast
  from a b c d z sc r show ?thesis by blast
qed

lemma never_ready_world: "never_ready world_never_ready"
  by (simp add: never_ready_def world_never_ready_def)

theorem C8_witness:
  "clock_advances world_never_ready \<and> never_ready world_never_ready \<and>
   (\<forall>n. popen world_never_ready n \<noteq> None) \<and>
   find_exe world_never_ready (step (init_tester 30 50)) \<noteq> None \<and>
   test_results (init_tester 30 50) ''avg_startup_time'' = None \<and>
   fst (check_dependencies world_never_ready globals_ok (run_header (init_tester 30 50))) \<and>
   (\<exists>s'. measure_startup_performance world_never_ready (init_tester 30 50) = Some (Inr (), s') \<and>
      test_results s' ''avg_startup_time'' = None \<and> startup_pts (test_results s') = 0) \<and>
   (\<exists>ok s''. run_all_tests world_never_ready globals_ok (init_tester 30 50) = Some (ok, s'') \<and>
      memory_banner \<in> set (test_log s''))"
proof -
  have c: "clock_advances world_never_ready"
    by (rule clock_advances_real) (simp add: world_never_ready_def world_ok_def)
  have p: "\<forall>n. popen world_never_ready n \<noteq> None"
    by (simp add: world_never_ready_def world_ok_def)
  have f: "find_exe world_never_ready (step (init_tester 30 50)) \<noteq> None"
    by (simp add: world_never_ready_def world_ok_def)
  have r: "test_results (init_tester 30 50) ''avg_startup_time'' = None"
    by (simp add: init_tester_def)
  have d: "fst (check_dependencies world_never_ready globals_ok (run_header (init_tester 30 50)))"
    by (simp add: check_dependencies_def py_import_def globals_ok_def Let_def)
  from C8_never_ready_startup [OF c never_ready_world p f r d] c never_ready_world p f r d
  show ?thesis by blast
qed

end
